theory Spec2Isabelle
  imports Complex_Main
begin

section \<open>The convolutional filter of the CNN notebook\<close>

text \<open>
  The notebook \<^verbatim>\<open>03a-example-convolutional-networks.ipynb\<close> defines one function of its
  own, \<^verbatim>\<open>convolve2D(input_image, kernel, padding=1, stride=1)\<close>, on NumPy arrays:
  \<^verbatim>\<open>
  def convolve2D(input_image, kernel, padding=1, stride=1):
      nx = input_image.shape[0]
      ny = input_image.shape[1]
      nchannel = input_image.shape[2]
      if padding > 0:
          padded_image = np.zeros((nx + padding * 2, ny + padding * 2, nchannel))
          padded_image[padding:-padding, padding:-padding, :] = input_image
      else:
          padded_image = input_image
      k = kernel.shape[0]
      nx_out = (nx + padding * 2 - k) // stride + 1
      ny_out = (ny + padding * 2 - k) // stride + 1
      output_image = np.zeros((nx_out, ny_out, nchannel))
      for ix_out in np.arange(nx_out):
          for iy_out in np.arange(ny_out):
              ix_in = ix_out * stride
              iy_in = iy_out * stride
              output_image[ix_out, iy_out, :] = \
              np.tensordot(kernel, padded_image[ix_in:(ix_in + k), iy_in:(iy_in + k), :], axes=2)
      output_image = np.maximum(output_image, 0)
      output_image = np.minimum(output_image, 1)
      return output_image
  \<close>
  Samples are IEEE doubles in the notebook. The function is embedded twice. In the first
  embedding samples are real numbers, so rounding, infinities and NaN are outside it: it
  serves for what the function does with shapes, windows, errors and the store. The second
  embedding (\<open>convolve2D_fp\<close>) has the special values of a double, overflow to the
  infinities and NaN, and serves for the range of the output. Sizes, paddings and strides
  are Python integers (\<^typ>\<open>int\<close>), array extents are natural numbers.
\<close>

subsection \<open>Arrays\<close>

text \<open>
  A NumPy array carries its shape apart from its data: an array of shape \<open>(0, 4, 3)\<close> has no
  element and still four columns and three channels. An image is the three extents and the
  rows of columns of channel vectors; a kernel is the two extents and the rows of weights.
\<close>

record ndarray3 =
  dim0 :: nat
  dim1 :: nat
  dim2 :: nat
  cells :: "real list list list"

record ndarray2 =
  krows :: nat
  kcols :: nat
  weights :: "real list list"

definition wf3 :: "ndarray3 \<Rightarrow> bool" where
  "wf3 A \<longleftrightarrow> length (cells A) = dim0 A \<and>
     list_all (\<lambda>row. length row = dim1 A \<and> list_all (\<lambda>px. length px = dim2 A) row) (cells A)"

definition wf2 :: "ndarray2 \<Rightarrow> bool" where
  "wf2 K \<longleftrightarrow> length (weights K) = krows K \<and>
     list_all (\<lambda>row. length row = kcols K) (weights K)"

definition at3 :: "ndarray3 \<Rightarrow> nat \<Rightarrow> nat \<Rightarrow> nat \<Rightarrow> real" where
  "at3 A i j ch = cells A ! i ! j ! ch"

definition at2 :: "ndarray2 \<Rightarrow> nat \<Rightarrow> nat \<Rightarrow> real" where
  "at2 K a b = weights K ! a ! b"

definition shape3 :: "ndarray3 \<Rightarrow> nat \<times> nat \<times> nat" where
  "shape3 A = (dim0 A, dim1 A, dim2 A)"

subsection \<open>The Python and NumPy operations the function calls\<close>

datatype error = ZeroDivisionError | ValueError | IndexError

text \<open>\<^verbatim>\<open>a // b\<close> on Python integers: floor division, raising on a zero divisor.\<close>

definition floordiv :: "int \<Rightarrow> int \<Rightarrow> error + int" where
  "floordiv a b = (if b = 0 then Inl ZeroDivisionError else Inr (a div b))"

text \<open>\<^verbatim>\<open>np.zeros((a, b, c))\<close>: a negative extent raises ValueError.\<close>

definition np_zeros :: "int \<Rightarrow> int \<Rightarrow> int \<Rightarrow> error + ndarray3" where
  "np_zeros a b c =
     (if a < 0 \<or> b < 0 \<or> c < 0 then Inl ValueError
      else Inr \<lparr>dim0 = nat a, dim1 = nat b, dim2 = nat c,
                cells = replicate (nat a) (replicate (nat b) (replicate (nat c) 0))\<rparr>)"

text \<open>
  A slice bound of \<^verbatim>\<open>xs[start:stop]\<close> on an axis of length \<open>n\<close>: a negative bound
  counts from the end, and every bound is clipped into \<open>0..n\<close>.
\<close>

definition slice_index :: "nat \<Rightarrow> int \<Rightarrow> nat" where
  "slice_index n i = (if i < 0 then nat (max (i + int n) 0) else min (nat i) n)"

definition slice_len :: "nat \<Rightarrow> int \<Rightarrow> int \<Rightarrow> nat" where
  "slice_len n start stop = slice_index n stop - slice_index n start"

definition py_slice :: "'a list \<Rightarrow> int \<Rightarrow> int \<Rightarrow> 'a list" where
  "py_slice xs start stop =
     take (slice_len (length xs) start stop) (drop (slice_index (length xs) start) xs)"

text \<open>\<^verbatim>\<open>A[r0:r1, c0:c1, :]\<close>, read.\<close>

definition slice3 :: "ndarray3 \<Rightarrow> int \<Rightarrow> int \<Rightarrow> int \<Rightarrow> int \<Rightarrow> ndarray3" where
  "slice3 A r0 r1 c0 c1 =
     \<lparr>dim0 = slice_len (dim0 A) r0 r1, dim1 = slice_len (dim1 A) c0 c1, dim2 = dim2 A,
      cells = map (\<lambda>row. py_slice row c0 c1) (py_slice (cells A) r0 r1)\<rparr>"

text \<open>
  \<^verbatim>\<open>xs[start:stop] = ys\<close> on one axis, for \<open>ys\<close> as long as the slice: the elements before
  and after the slice stay.
\<close>

definition set_slice :: "'a list \<Rightarrow> int \<Rightarrow> int \<Rightarrow> 'a list \<Rightarrow> 'a list" where
  "set_slice xs start stop ys =
     take (slice_index (length xs) start) xs @ ys @
     drop (slice_index (length xs) start + slice_len (length xs) start stop) xs"

text \<open>
  \<^verbatim>\<open>A[r0:r1, c0:c1, :] = B\<close>. The function only ever assigns an array of the region's own
  shape (\<open>pad_image_total\<close> below), so broadcasting is left out: any other shape is reported
  as the ValueError NumPy raises when shapes cannot be matched.
\<close>

definition setitem_slice3 ::
  "ndarray3 \<Rightarrow> int \<Rightarrow> int \<Rightarrow> int \<Rightarrow> int \<Rightarrow> ndarray3 \<Rightarrow> error + ndarray3" where
  "setitem_slice3 A r0 r1 c0 c1 B =
     (if shape3 B = (slice_len (dim0 A) r0 r1, slice_len (dim1 A) c0 c1, dim2 A)
      then Inr (A\<lparr>cells := set_slice (cells A) r0 r1
                    (map2 (\<lambda>row brow. set_slice row c0 c1 brow)
                       (py_slice (cells A) r0 r1) (cells B))\<rparr>)
      else Inl ValueError)"

text \<open>\<^verbatim>\<open>A[i, j, :] = v\<close> for non-negative indices.\<close>

definition setitem_px :: "ndarray3 \<Rightarrow> nat \<Rightarrow> nat \<Rightarrow> real list \<Rightarrow> error + ndarray3" where
  "setitem_px A i j v =
     (if \<not> (i < dim0 A \<and> j < dim1 A) then Inl IndexError
      else if length v \<noteq> dim2 A then Inl ValueError
      else Inr (A\<lparr>cells := (cells A)[i := (cells A ! i)[j := v]]\<rparr>))"

text \<open>
  \<^verbatim>\<open>np.tensordot(a, b, axes=2)\<close> for a matrix \<open>a\<close> and a three-axis \<open>b\<close>: both axes of
  \<open>a\<close> are contracted with the first two of \<open>b\<close>, which must have the same extents; the
  result has one entry per channel, summed row by row.
\<close>

definition tensordot :: "ndarray2 \<Rightarrow> ndarray3 \<Rightarrow> error + real list" where
  "tensordot a b =
     (if krows a = dim0 b \<and> kcols a = dim1 b
      then Inr (map (\<lambda>ch. sum_list (map (\<lambda>i. sum_list (map (\<lambda>j. at2 a i j * at3 b i j ch)
                                                         [0..<kcols a])) [0..<krows a]))
                  [0..<dim2 b])
      else Inl ValueError)"

text \<open>\<^verbatim>\<open>np.maximum(A, c)\<close> and \<^verbatim>\<open>np.minimum(A, c)\<close> against a scalar: a new array.\<close>

definition np_maximum :: "ndarray3 \<Rightarrow> real \<Rightarrow> ndarray3" where
  "np_maximum A c = A\<lparr>cells := map (map (map (\<lambda>x. max x c))) (cells A)\<rparr>"

definition np_minimum :: "ndarray3 \<Rightarrow> real \<Rightarrow> ndarray3" where
  "np_minimum A c = A\<lparr>cells := map (map (map (\<lambda>x. min x c))) (cells A)\<rparr>"

text \<open>\<^verbatim>\<open>np.arange(n)\<close> for an integer \<open>n\<close>: \<open>0, 1, ..., n - 1\<close>, nothing when \<open>n \<le> 0\<close>.\<close>

definition np_arange :: "int \<Rightarrow> int list" where
  "np_arange n = map int [0..<nat n]"

text \<open>A \<^verbatim>\<open>for\<close> loop over a list whose body may raise: the first error ends the loop.\<close>

primrec for_each :: "'a list \<Rightarrow> ('a \<Rightarrow> 's \<Rightarrow> error + 's) \<Rightarrow> 's \<Rightarrow> error + 's" where
  "for_each [] body s = Inr s"
| "for_each (x # xs) body s =
     (case body x s of Inl e \<Rightarrow> Inl e | Inr s' \<Rightarrow> for_each xs body s')"

subsection \<open>\<^verbatim>\<open>convolve2D\<close>\<close>

text \<open>
  In the definitions, \<open>kern\<close> stands for the parameter \<^verbatim>\<open>kernel\<close> (the name is taken in HOL).
\<close>

text \<open>The padding step: a zero array with the image written into its middle, or the image.\<close>

definition pad_image :: "ndarray3 \<Rightarrow> int \<Rightarrow> error + ndarray3" where
  "pad_image input_image padding =
     (let nx = int (dim0 input_image); ny = int (dim1 input_image);
          nchannel = int (dim2 input_image)
      in if padding > 0
         then (case np_zeros (nx + padding * 2) (ny + padding * 2) nchannel of
                 Inl e \<Rightarrow> Inl e
               | Inr padded_image \<Rightarrow>
                   setitem_slice3 padded_image padding (- padding) padding (- padding)
                     input_image)
         else Inr input_image)"

text \<open>The two output extents, \<^verbatim>\<open>(n + padding * 2 - k) // stride + 1\<close> on each axis.\<close>

definition out_extent :: "nat \<Rightarrow> int \<Rightarrow> int \<Rightarrow> int \<Rightarrow> error + int" where
  "out_extent n padding k stride =
     (case floordiv (int n + padding * 2 - k) stride of
        Inl e \<Rightarrow> Inl e
      | Inr q \<Rightarrow> Inr (q + 1))"

text \<open>The body of the inner loop: one output pixel, all channels at once.\<close>

definition conv_pixel ::
  "ndarray2 \<Rightarrow> ndarray3 \<Rightarrow> int \<Rightarrow> int \<Rightarrow> int \<Rightarrow> ndarray3 \<Rightarrow> error + ndarray3" where
  "conv_pixel kern padded_image stride ix_out iy_out output_image =
     (let k = int (krows kern);
          ix_in = ix_out * stride;
          iy_in = iy_out * stride
      in case tensordot kern
                (slice3 padded_image ix_in (ix_in + k) iy_in (iy_in + k)) of
           Inl e \<Rightarrow> Inl e
         | Inr v \<Rightarrow> setitem_px output_image (nat ix_out) (nat iy_out) v)"

definition conv_loops ::
  "ndarray2 \<Rightarrow> ndarray3 \<Rightarrow> int \<Rightarrow> int \<Rightarrow> int \<Rightarrow> ndarray3 \<Rightarrow> error + ndarray3" where
  "conv_loops kern padded_image stride nx_out ny_out output_image =
     for_each (np_arange nx_out)
       (\<lambda>ix_out. for_each (np_arange ny_out)
          (\<lambda>iy_out. conv_pixel kern padded_image stride ix_out iy_out))
       output_image"

definition convolve2D :: "ndarray3 \<Rightarrow> ndarray2 \<Rightarrow> int \<Rightarrow> int \<Rightarrow> error + ndarray3" where
  "convolve2D input_image kern padding stride =
     (case pad_image input_image padding of
        Inl e \<Rightarrow> Inl e
      | Inr padded_image \<Rightarrow>
     (let k = int (krows kern) in
      case out_extent (dim0 input_image) padding k stride of
        Inl e \<Rightarrow> Inl e
      | Inr nx_out \<Rightarrow>
     (case out_extent (dim1 input_image) padding k stride of
        Inl e \<Rightarrow> Inl e
      | Inr ny_out \<Rightarrow>
     (case np_zeros nx_out ny_out (int (dim2 input_image)) of
        Inl e \<Rightarrow> Inl e
      | Inr output_image \<Rightarrow>
     (case conv_loops kern padded_image stride nx_out ny_out output_image of
        Inl e \<Rightarrow> Inl e
      | Inr output_image \<Rightarrow>
          Inr (np_minimum (np_maximum output_image 0) 1))))))"

subsection \<open>What the function computes, in closed form\<close>

text \<open>
  The sum that \<^verbatim>\<open>np.tensordot\<close> forms for the window whose top-left corner is \<open>(r, c)\<close>,
  on channel \<open>ch\<close>, and the vector of these sums over all channels.
\<close>

definition window_sum :: "ndarray2 \<Rightarrow> ndarray3 \<Rightarrow> nat \<Rightarrow> nat \<Rightarrow> nat \<Rightarrow> real" where
  "window_sum K P r c ch =
     sum_list (map (\<lambda>a. sum_list (map (\<lambda>b. at2 K a b * at3 P (r + a) (c + b) ch)
                                     [0..<kcols K])) [0..<krows K])"

definition pixel_row :: "ndarray2 \<Rightarrow> ndarray3 \<Rightarrow> nat \<Rightarrow> nat \<Rightarrow> real list" where
  "pixel_row K P r c = map (window_sum K P r c) [0..<dim2 P]"

text \<open>The array the padding step leaves in \<^verbatim>\<open>padded_image\<close> when \<open>padding > 0\<close>.\<close>

definition padded_cells :: "ndarray3 \<Rightarrow> nat \<Rightarrow> real list list list" where
  "padded_cells A p =
     replicate p (replicate (dim1 A + 2 * p) (replicate (dim2 A) 0)) @
     map (\<lambda>row. replicate p (replicate (dim2 A) 0) @ row @ replicate p (replicate (dim2 A) 0))
       (cells A) @
     replicate p (replicate (dim1 A + 2 * p) (replicate (dim2 A) 0))"

definition padded :: "ndarray3 \<Rightarrow> nat \<Rightarrow> ndarray3" where
  "padded A p = \<lparr>dim0 = dim0 A + 2 * p, dim1 = dim1 A + 2 * p, dim2 = dim2 A,
                  cells = padded_cells A p\<rparr>"

definition padded_or_self :: "ndarray3 \<Rightarrow> int \<Rightarrow> ndarray3" where
  "padded_or_self A p = (if p > 0 then padded A (nat p) else A)"

definition clip01 :: "real \<Rightarrow> real" where
  "clip01 x = min (max x 0) 1"

definition conv_cells ::
  "ndarray2 \<Rightarrow> ndarray3 \<Rightarrow> nat \<Rightarrow> nat \<Rightarrow> nat \<Rightarrow> real list list list" where
  "conv_cells K P s n m =
     map (\<lambda>i. map (\<lambda>j. map (\<lambda>ch. clip01 (window_sum K P (i * s) (j * s) ch)) [0..<dim2 P])
                 [0..<m]) [0..<n]"

subsection \<open>The specification's vocabulary\<close>

text \<open>
  A valid call, in the specification's words: an image with at least one row, column and
  channel, a square kernel of side \<open>k \<ge> 1\<close>, padding \<open>p \<ge> 0\<close>, stride \<open>s \<ge> 1\<close>, and
  \<open>R + 2p - k \<ge> 0\<close>, \<open>C + 2p - k \<ge> 0\<close>.
\<close>

definition valid_call :: "ndarray3 \<Rightarrow> ndarray2 \<Rightarrow> int \<Rightarrow> int \<Rightarrow> bool" where
  "valid_call img K p s \<longleftrightarrow>
     wf3 img \<and> wf2 K \<and> 1 \<le> dim0 img \<and> 1 \<le> dim1 img \<and> 1 \<le> dim2 img \<and>
     kcols K = krows K \<and> 1 \<le> krows K \<and> 0 \<le> p \<and> 1 \<le> s \<and>
     0 \<le> int (dim0 img) + 2 * p - int (krows K) \<and>
     0 \<le> int (dim1 img) + 2 * p - int (krows K)"



text \<open>Arrays for the examples: an image and a kernel given by their entries.\<close>

definition image_of :: "nat \<Rightarrow> nat \<Rightarrow> nat \<Rightarrow> (nat \<Rightarrow> nat \<Rightarrow> nat \<Rightarrow> real) \<Rightarrow> ndarray3" where
  "image_of r c n f =
     \<lparr>dim0 = r, dim1 = c, dim2 = n,
      cells = map (\<lambda>i. map (\<lambda>j. map (\<lambda>ch. f i j ch) [0..<n]) [0..<c]) [0..<r]\<rparr>"

definition kernel_of :: "nat \<Rightarrow> (nat \<Rightarrow> nat \<Rightarrow> real) \<Rightarrow> ndarray2" where
  "kernel_of k f =
     \<lparr>krows = k, kcols = k, weights = map (\<lambda>a. map (\<lambda>b. f a b) [0..<k]) [0..<k]\<rparr>"

text \<open>
  The \<open>1 \<times> 1\<close> kernel whose one weight is 1.
\<close>

definition unit_kernel :: ndarray2 where
  "unit_kernel = \<lparr>krows = 1, kcols = 1, weights = [[1]]\<rparr>"

subsection \<open>The function on a store\<close>

text \<open>
  NumPy arrays are objects: \<^verbatim>\<open>padded_image = input_image\<close> makes a second name for the
  caller's array, \<^verbatim>\<open>np.zeros\<close>, \<^verbatim>\<open>np.maximum\<close> and \<^verbatim>\<open>np.minimum\<close> allocate a new
  array, and an indexed assignment writes into the array its target names. The store maps
  references to arrays; the references below \<open>next_ref\<close> are the allocated ones. The
  function allocates no matrix, so the kernels have a map of their own. The same function
  again, statement by statement, on references.
\<close>

type_synonym ref = nat

record store =
  arrays :: "ref \<Rightarrow> ndarray3"
  matrices :: "ref \<Rightarrow> ndarray2"
  next_ref :: ref

definition new_array :: "ndarray3 \<Rightarrow> store \<Rightarrow> ref \<times> store" where
  "new_array A h =
     (next_ref h, h\<lparr>arrays := (arrays h)(next_ref h := A), next_ref := Suc (next_ref h)\<rparr>)"

definition st_zeros :: "int \<Rightarrow> int \<Rightarrow> int \<Rightarrow> store \<Rightarrow> (error + ref) \<times> store" where
  "st_zeros a b c h =
     (case np_zeros a b c of
        Inl e \<Rightarrow> (Inl e, h)
      | Inr Z \<Rightarrow> (case new_array Z h of (r, h') \<Rightarrow> (Inr r, h')))"

definition st_setitem_slice3 ::
  "ref \<Rightarrow> int \<Rightarrow> int \<Rightarrow> int \<Rightarrow> int \<Rightarrow> ref \<Rightarrow> store \<Rightarrow> (error + unit) \<times> store" where
  "st_setitem_slice3 target r0 r1 c0 c1 src h =
     (case setitem_slice3 (arrays h target) r0 r1 c0 c1 (arrays h src) of
        Inl e \<Rightarrow> (Inl e, h)
      | Inr A \<Rightarrow> (Inr (), h\<lparr>arrays := (arrays h)(target := A)\<rparr>))"

definition st_pad_image :: "ref \<Rightarrow> int \<Rightarrow> store \<Rightarrow> (error + ref) \<times> store" where
  "st_pad_image input_image padding h =
     (let nx = int (dim0 (arrays h input_image)); ny = int (dim1 (arrays h input_image));
          nchannel = int (dim2 (arrays h input_image))
      in if padding > 0
         then (case st_zeros (nx + padding * 2) (ny + padding * 2) nchannel h of
                 (Inl e, h1) \<Rightarrow> (Inl e, h1)
               | (Inr padded_image, h1) \<Rightarrow>
                   (case st_setitem_slice3 padded_image padding (- padding) padding (- padding)
                           input_image h1 of
                      (Inl e, h2) \<Rightarrow> (Inl e, h2)
                    | (Inr u, h2) \<Rightarrow> (Inr padded_image, h2)))
         else (Inr input_image, h))"

definition st_conv_pixel ::
  "ref \<Rightarrow> ref \<Rightarrow> int \<Rightarrow> int \<Rightarrow> int \<Rightarrow> ref \<Rightarrow> store \<Rightarrow> (error + unit) \<times> store" where
  "st_conv_pixel kern padded_image stride ix_out iy_out output_image h =
     (let k = int (krows (matrices h kern));
          ix_in = ix_out * stride;
          iy_in = iy_out * stride
      in case tensordot (matrices h kern)
                (slice3 (arrays h padded_image) ix_in (ix_in + k) iy_in (iy_in + k)) of
           Inl e \<Rightarrow> (Inl e, h)
         | Inr v \<Rightarrow>
             (case setitem_px (arrays h output_image) (nat ix_out) (nat iy_out) v of
                Inl e \<Rightarrow> (Inl e, h)
              | Inr A \<Rightarrow> (Inr (), h\<lparr>arrays := (arrays h)(output_image := A)\<rparr>)))"

primrec st_for_each ::
  "'a list \<Rightarrow> ('a \<Rightarrow> store \<Rightarrow> (error + unit) \<times> store) \<Rightarrow> store \<Rightarrow> (error + unit) \<times> store" where
  "st_for_each [] body h = (Inr (), h)"
| "st_for_each (x # xs) body h =
     (case body x h of
        (Inl e, h') \<Rightarrow> (Inl e, h')
      | (Inr u, h') \<Rightarrow> st_for_each xs body h')"

definition st_conv_loops ::
  "ref \<Rightarrow> ref \<Rightarrow> int \<Rightarrow> int \<Rightarrow> int \<Rightarrow> ref \<Rightarrow> store \<Rightarrow> (error + unit) \<times> store" where
  "st_conv_loops kern padded_image stride nx_out ny_out output_image =
     st_for_each (np_arange nx_out)
       (\<lambda>ix_out. st_for_each (np_arange ny_out)
          (\<lambda>iy_out. st_conv_pixel kern padded_image stride ix_out iy_out output_image))"

definition st_maximum :: "ref \<Rightarrow> real \<Rightarrow> store \<Rightarrow> ref \<times> store" where
  "st_maximum r c h = new_array (np_maximum (arrays h r) c) h"

definition st_minimum :: "ref \<Rightarrow> real \<Rightarrow> store \<Rightarrow> ref \<times> store" where
  "st_minimum r c h = new_array (np_minimum (arrays h r) c) h"

definition convolve2D_st :: "ref \<Rightarrow> ref \<Rightarrow> int \<Rightarrow> int \<Rightarrow> store \<Rightarrow> (error + ref) \<times> store" where
  "convolve2D_st input_image kern padding stride h =
     (let nx = dim0 (arrays h input_image); ny = dim1 (arrays h input_image);
          nchannel = dim2 (arrays h input_image)
      in case st_pad_image input_image padding h of
           (Inl e, h1) \<Rightarrow> (Inl e, h1)
         | (Inr padded_image, h1) \<Rightarrow>
     (let k = int (krows (matrices h1 kern)) in
      case out_extent nx padding k stride of
        Inl e \<Rightarrow> (Inl e, h1)
      | Inr nx_out \<Rightarrow>
     (case out_extent ny padding k stride of
        Inl e \<Rightarrow> (Inl e, h1)
      | Inr ny_out \<Rightarrow>
     (case st_zeros nx_out ny_out (int nchannel) h1 of
        (Inl e, h2) \<Rightarrow> (Inl e, h2)
      | (Inr output_image, h2) \<Rightarrow>
     (case st_conv_loops kern padded_image stride nx_out ny_out output_image h2 of
        (Inl e, h3) \<Rightarrow> (Inl e, h3)
      | (Inr u, h3) \<Rightarrow>
     (case st_maximum output_image 0 h3 of
        (output_max, h4) \<Rightarrow>
     (case st_minimum output_max 1 h4 of
        (output_min, h5) \<Rightarrow> (Inr output_min, h5))))))))"

text \<open>
  Two stores compared: \<open>extends h h'\<close> when \<open>h'\<close> has every array allocated in \<open>h\<close>
  unchanged and the same kernels; \<open>writes_only t h h'\<close> when nothing but the array at
  \<open>t\<close> differs. \<open>reads_ok\<close> fixes what the loop reads, and \<open>agrees\<close> compares one step
  on the store with the same step on values.
\<close>

definition extends :: "store \<Rightarrow> store \<Rightarrow> bool" where
  "extends h h' \<longleftrightarrow>
     next_ref h \<le> next_ref h' \<and> matrices h' = matrices h \<and>
     (\<forall>r<next_ref h. arrays h' r = arrays h r)"

definition writes_only :: "ref \<Rightarrow> store \<Rightarrow> store \<Rightarrow> bool" where
  "writes_only t h h' \<longleftrightarrow>
     next_ref h' = next_ref h \<and> matrices h' = matrices h \<and>
     (\<forall>r. r \<noteq> t \<longrightarrow> arrays h' r = arrays h r)"

definition reads_ok :: "ref \<Rightarrow> ndarray2 \<Rightarrow> ref \<Rightarrow> ndarray3 \<Rightarrow> store \<Rightarrow> bool" where
  "reads_ok kern K padded_image P h \<longleftrightarrow> matrices h kern = K \<and> arrays h padded_image = P"

definition agrees :: "error + ndarray3 \<Rightarrow> error + unit \<Rightarrow> ndarray3 \<Rightarrow> bool" where
  "agrees pure res A \<longleftrightarrow>
     (case pure of Inl e \<Rightarrow> res = Inl e | Inr B \<Rightarrow> res = Inr () \<and> A = B)"

subsection \<open>The function on doubles with their special values\<close>

text \<open>
  A double is a finite number, one of the two infinities, or NaN. An operation on finite
  numbers whose exact result reaches \<open>2^1024 - 2^970\<close> in magnitude gives an infinity, as
  rounding to nearest does; below that bound the exact result is kept, so the rounding to
  53 bits and the sign of a zero are not modelled. Sums and products of special values
  follow IEEE 754: \<open>inf + (-inf)\<close> and \<open>0 * inf\<close> are NaN, and NaN propagates.
\<close>

datatype double = Fin real | PInf | NInf | NaN

definition overflow_bound :: real where
  "overflow_bound = 2 ^ 1024 - 2 ^ 970"

definition fp_round :: "real \<Rightarrow> double" where
  "fp_round r = (if overflow_bound \<le> r then PInf
                 else if r \<le> - overflow_bound then NInf else Fin r)"

fun fp_add :: "double \<Rightarrow> double \<Rightarrow> double" where
  "fp_add NaN y = NaN"
| "fp_add x NaN = NaN"
| "fp_add PInf NInf = NaN"
| "fp_add NInf PInf = NaN"
| "fp_add PInf y = PInf"
| "fp_add x PInf = PInf"
| "fp_add NInf y = NInf"
| "fp_add x NInf = NInf"
| "fp_add (Fin a) (Fin b) = fp_round (a + b)"

fun fp_mul :: "double \<Rightarrow> double \<Rightarrow> double" where
  "fp_mul NaN y = NaN"
| "fp_mul x NaN = NaN"
| "fp_mul (Fin a) (Fin b) = fp_round (a * b)"
| "fp_mul (Fin a) PInf = (if a = 0 then NaN else if 0 < a then PInf else NInf)"
| "fp_mul (Fin a) NInf = (if a = 0 then NaN else if 0 < a then NInf else PInf)"
| "fp_mul PInf (Fin b) = (if b = 0 then NaN else if 0 < b then PInf else NInf)"
| "fp_mul NInf (Fin b) = (if b = 0 then NaN else if 0 < b then NInf else PInf)"
| "fp_mul PInf PInf = PInf"
| "fp_mul NInf NInf = PInf"
| "fp_mul PInf NInf = NInf"
| "fp_mul NInf PInf = NInf"

text \<open>
  \<^verbatim>\<open>np.maximum\<close> and \<^verbatim>\<open>np.minimum\<close> on two doubles: the larger, the smaller, and NaN as
  soon as one of the two is NaN.
\<close>

fun fp_maximum :: "double \<Rightarrow> double \<Rightarrow> double" where
  "fp_maximum NaN y = NaN"
| "fp_maximum x NaN = NaN"
| "fp_maximum PInf y = PInf"
| "fp_maximum x PInf = PInf"
| "fp_maximum NInf y = y"
| "fp_maximum x NInf = x"
| "fp_maximum (Fin a) (Fin b) = Fin (max a b)"

fun fp_minimum :: "double \<Rightarrow> double \<Rightarrow> double" where
  "fp_minimum NaN y = NaN"
| "fp_minimum x NaN = NaN"
| "fp_minimum NInf y = NInf"
| "fp_minimum x NInf = NInf"
| "fp_minimum PInf y = y"
| "fp_minimum x PInf = x"
| "fp_minimum (Fin a) (Fin b) = Fin (min a b)"

fun in_unit_interval :: "double \<Rightarrow> bool" where
  "in_unit_interval (Fin a) \<longleftrightarrow> 0 \<le> a \<and> a \<le> 1"
| "in_unit_interval x \<longleftrightarrow> False"

fun is_finite :: "double \<Rightarrow> bool" where
  "is_finite (Fin a) \<longleftrightarrow> True"
| "is_finite x \<longleftrightarrow> False"

text \<open>
  Arrays of doubles, and the operations of the function on them. The operations that move
  samples are the ones above with another sample type; \<^verbatim>\<open>np.tensordot\<close> multiplies and adds
  with \<open>fp_mul\<close> and \<open>fp_add\<close>, row by row from \<open>0.0\<close> (NumPy leaves the order to its
  BLAS routine; \<open>sum_of_both_infinities\<close> below does not depend on it).
\<close>

record ndarray3_fp =
  fdim0 :: nat
  fdim1 :: nat
  fdim2 :: nat
  fcells :: "double list list list"

record ndarray2_fp =
  fkrows :: nat
  fkcols :: nat
  fweights :: "double list list"

definition np_zeros_fp :: "int \<Rightarrow> int \<Rightarrow> int \<Rightarrow> error + ndarray3_fp" where
  "np_zeros_fp a b c =
     (if a < 0 \<or> b < 0 \<or> c < 0 then Inl ValueError
      else Inr \<lparr>fdim0 = nat a, fdim1 = nat b, fdim2 = nat c,
                fcells = replicate (nat a) (replicate (nat b) (replicate (nat c) (Fin 0)))\<rparr>)"

definition slice3_fp :: "ndarray3_fp \<Rightarrow> int \<Rightarrow> int \<Rightarrow> int \<Rightarrow> int \<Rightarrow> ndarray3_fp" where
  "slice3_fp A r0 r1 c0 c1 =
     \<lparr>fdim0 = slice_len (fdim0 A) r0 r1, fdim1 = slice_len (fdim1 A) c0 c1, fdim2 = fdim2 A,
      fcells = map (\<lambda>row. py_slice row c0 c1) (py_slice (fcells A) r0 r1)\<rparr>"

definition setitem_slice3_fp ::
  "ndarray3_fp \<Rightarrow> int \<Rightarrow> int \<Rightarrow> int \<Rightarrow> int \<Rightarrow> ndarray3_fp \<Rightarrow> error + ndarray3_fp" where
  "setitem_slice3_fp A r0 r1 c0 c1 B =
     (if (fdim0 B, fdim1 B, fdim2 B)
           = (slice_len (fdim0 A) r0 r1, slice_len (fdim1 A) c0 c1, fdim2 A)
      then Inr (A\<lparr>fcells := set_slice (fcells A) r0 r1
                    (map2 (\<lambda>row brow. set_slice row c0 c1 brow)
                       (py_slice (fcells A) r0 r1) (fcells B))\<rparr>)
      else Inl ValueError)"

definition setitem_px_fp ::
  "ndarray3_fp \<Rightarrow> nat \<Rightarrow> nat \<Rightarrow> double list \<Rightarrow> error + ndarray3_fp" where
  "setitem_px_fp A i j v =
     (if \<not> (i < fdim0 A \<and> j < fdim1 A) then Inl IndexError
      else if length v \<noteq> fdim2 A then Inl ValueError
      else Inr (A\<lparr>fcells := (fcells A)[i := (fcells A ! i)[j := v]]\<rparr>))"

definition tensordot_fp :: "ndarray2_fp \<Rightarrow> ndarray3_fp \<Rightarrow> error + double list" where
  "tensordot_fp a b =
     (if fkrows a = fdim0 b \<and> fkcols a = fdim1 b
      then Inr (map (\<lambda>ch. foldl fp_add (Fin 0)
                            (concat (map (\<lambda>i. map (\<lambda>j. fp_mul (fweights a ! i ! j)
                                                          (fcells b ! i ! j ! ch))
                                                 [0..<fkcols a]) [0..<fkrows a])))
                  [0..<fdim2 b])
      else Inl ValueError)"

definition np_maximum_fp :: "ndarray3_fp \<Rightarrow> double \<Rightarrow> ndarray3_fp" where
  "np_maximum_fp A c = A\<lparr>fcells := map (map (map (\<lambda>x. fp_maximum x c))) (fcells A)\<rparr>"

definition np_minimum_fp :: "ndarray3_fp \<Rightarrow> double \<Rightarrow> ndarray3_fp" where
  "np_minimum_fp A c = A\<lparr>fcells := map (map (map (\<lambda>x. fp_minimum x c))) (fcells A)\<rparr>"

definition pad_image_fp :: "ndarray3_fp \<Rightarrow> int \<Rightarrow> error + ndarray3_fp" where
  "pad_image_fp input_image padding =
     (let nx = int (fdim0 input_image); ny = int (fdim1 input_image);
          nchannel = int (fdim2 input_image)
      in if padding > 0
         then (case np_zeros_fp (nx + padding * 2) (ny + padding * 2) nchannel of
                 Inl e \<Rightarrow> Inl e
               | Inr padded_image \<Rightarrow>
                   setitem_slice3_fp padded_image padding (- padding) padding (- padding)
                     input_image)
         else Inr input_image)"

definition conv_pixel_fp ::
  "ndarray2_fp \<Rightarrow> ndarray3_fp \<Rightarrow> int \<Rightarrow> int \<Rightarrow> int \<Rightarrow> ndarray3_fp \<Rightarrow> error + ndarray3_fp" where
  "conv_pixel_fp kern padded_image stride ix_out iy_out output_image =
     (let k = int (fkrows kern);
          ix_in = ix_out * stride;
          iy_in = iy_out * stride
      in case tensordot_fp kern
                (slice3_fp padded_image ix_in (ix_in + k) iy_in (iy_in + k)) of
           Inl e \<Rightarrow> Inl e
         | Inr v \<Rightarrow> setitem_px_fp output_image (nat ix_out) (nat iy_out) v)"

definition conv_loops_fp ::
  "ndarray2_fp \<Rightarrow> ndarray3_fp \<Rightarrow> int \<Rightarrow> int \<Rightarrow> int \<Rightarrow> ndarray3_fp \<Rightarrow> error + ndarray3_fp" where
  "conv_loops_fp kern padded_image stride nx_out ny_out output_image =
     for_each (np_arange nx_out)
       (\<lambda>ix_out. for_each (np_arange ny_out)
          (\<lambda>iy_out. conv_pixel_fp kern padded_image stride ix_out iy_out))
       output_image"

definition convolve2D_fp ::
  "ndarray3_fp \<Rightarrow> ndarray2_fp \<Rightarrow> int \<Rightarrow> int \<Rightarrow> error + ndarray3_fp" where
  "convolve2D_fp input_image kern padding stride =
     (case pad_image_fp input_image padding of
        Inl e \<Rightarrow> Inl e
      | Inr padded_image \<Rightarrow>
     (let k = int (fkrows kern) in
      case out_extent (fdim0 input_image) padding k stride of
        Inl e \<Rightarrow> Inl e
      | Inr nx_out \<Rightarrow>
     (case out_extent (fdim1 input_image) padding k stride of
        Inl e \<Rightarrow> Inl e
      | Inr ny_out \<Rightarrow>
     (case np_zeros_fp nx_out ny_out (int (fdim2 input_image)) of
        Inl e \<Rightarrow> Inl e
      | Inr output_image \<Rightarrow>
     (case conv_loops_fp kern padded_image stride nx_out ny_out output_image of
        Inl e \<Rightarrow> Inl e
      | Inr output_image \<Rightarrow>
          Inr (np_minimum_fp (np_maximum_fp output_image (Fin 0)) (Fin 1)))))))"

text \<open>
  A valid call on doubles, in the specification's words: as \<open>valid_call\<close>, and every
  sample of the image and every weight of the kernel finite.
\<close>

definition wf3_fp :: "ndarray3_fp \<Rightarrow> bool" where
  "wf3_fp A \<longleftrightarrow> length (fcells A) = fdim0 A \<and>
     list_all (\<lambda>row. length row = fdim1 A \<and> list_all (\<lambda>px. length px = fdim2 A) row)
       (fcells A)"

definition wf2_fp :: "ndarray2_fp \<Rightarrow> bool" where
  "wf2_fp K \<longleftrightarrow> length (fweights K) = fkrows K \<and>
     list_all (\<lambda>row. length row = fkcols K) (fweights K)"

definition all_samples :: "(double \<Rightarrow> bool) \<Rightarrow> ndarray3_fp \<Rightarrow> bool" where
  "all_samples Q A = list_all (list_all (list_all Q)) (fcells A)"

definition valid_call_fp :: "ndarray3_fp \<Rightarrow> ndarray2_fp \<Rightarrow> int \<Rightarrow> int \<Rightarrow> bool" where
  "valid_call_fp img K p s \<longleftrightarrow>
     wf3_fp img \<and> wf2_fp K \<and> 1 \<le> fdim0 img \<and> 1 \<le> fdim1 img \<and> 1 \<le> fdim2 img \<and>
     fkcols K = fkrows K \<and> 1 \<le> fkrows K \<and> 0 \<le> p \<and> 1 \<le> s \<and>
     0 \<le> int (fdim0 img) + 2 * p - int (fkrows K) \<and>
     0 \<le> int (fdim1 img) + 2 * p - int (fkrows K) \<and>
     all_samples is_finite img \<and> list_all (list_all is_finite) (fweights K)"

section \<open>Properties\<close>

subsection \<open>Slices and windows\<close>

lemma slice_index_nonneg: "0 \<le> i \<Longrightarrow> slice_index n i = min (nat i) n"
  by (simp add: slice_index_def)

lemma slice_len_window:
  assumes "0 \<le> r" "0 \<le> k" "r + k \<le> int n"
  shows "slice_len n r (r + k) = nat k"
  using assms by (simp add: slice_len_def slice_index_nonneg min_def) linarith

lemma py_slice_window:
  assumes "0 \<le> r" "0 \<le> k" "r + k \<le> int (length xs)"
  shows "py_slice xs r (r + k) = take (nat k) (drop (nat r) xs)"
proof -
  have "slice_index (length xs) r = nat r"
    using assms by (simp add: slice_index_nonneg)
  then show ?thesis
    using assms by (simp add: py_slice_def slice_len_window)
qed

lemma py_slice_window_nth:
  assumes "0 \<le> r" "0 \<le> k" "r + k \<le> int (length xs)" "a < nat k"
  shows "py_slice xs r (r + k) ! a = xs ! (nat r + a)"
  using assms by (simp add: py_slice_window)

lemma wf3_row: "wf3 A \<Longrightarrow> i < dim0 A \<Longrightarrow> length (cells A ! i) = dim1 A"
  by (simp add: wf3_def list_all_length)

lemma wf3_px: "wf3 A \<Longrightarrow> i < dim0 A \<Longrightarrow> j < dim1 A \<Longrightarrow> length (cells A ! i ! j) = dim2 A"
  by (simp add: wf3_def list_all_length)

lemma wf3_rows: "wf3 A \<Longrightarrow> length (cells A) = dim0 A"
  by (simp add: wf3_def)

lemma at3_window:
  assumes "wf3 A" "0 \<le> r" "0 \<le> c" "0 \<le> k"
    and "r + k \<le> int (dim0 A)" "c + k \<le> int (dim1 A)"
    and "a < nat k" "b < nat k"
  shows "at3 (slice3 A r (r + k) c (c + k)) a b ch = at3 A (nat r + a) (nat c + b) ch"
proof -
  have len: "length (cells A) = dim0 A" using assms(1) by (rule wf3_rows)
  have ra: "nat r + a < dim0 A" using assms by linarith
  have rowlen: "length (cells A ! (nat r + a)) = dim1 A"
    using assms(1) ra by (rule wf3_row)
  have "py_slice (cells A) r (r + k) ! a = cells A ! (nat r + a)"
    using assms len by (simp add: py_slice_window_nth)
  moreover have "a < length (py_slice (cells A) r (r + k))"
    using assms len by (simp add: py_slice_window)
  ultimately have "cells (slice3 A r (r + k) c (c + k)) ! a
      = py_slice (cells A ! (nat r + a)) c (c + k)"
    by (simp add: slice3_def)
  moreover have "py_slice (cells A ! (nat r + a)) c (c + k) ! b = cells A ! (nat r + a) ! (nat c + b)"
    using assms rowlen by (simp add: py_slice_window_nth)
  ultimately show ?thesis by (simp add: at3_def)
qed

lemma dims_window:
  assumes "0 \<le> r" "0 \<le> c" "0 \<le> k"
    and "r + k \<le> int (dim0 A)" "c + k \<le> int (dim1 A)"
  shows "dim0 (slice3 A r (r + k) c (c + k)) = nat k"
    and "dim1 (slice3 A r (r + k) c (c + k)) = nat k"
    and "dim2 (slice3 A r (r + k) c (c + k)) = dim2 A"
  using assms by (simp_all add: slice3_def slice_len_window)

subsection \<open>The loops\<close>

lemma tensordot_window:
  assumes "wf3 P" "kcols K = krows K"
    and "int r + int (krows K) \<le> int (dim0 P)" "int c + int (krows K) \<le> int (dim1 P)"
  shows "tensordot K (slice3 P (int r) (int r + int (krows K)) (int c) (int c + int (krows K)))
           = Inr (pixel_row K P r c)"
proof -
  let ?W = "slice3 P (int r) (int r + int (krows K)) (int c) (int c + int (krows K))"
  have d: "dim0 ?W = krows K" "dim1 ?W = krows K" "dim2 ?W = dim2 P"
    using assms dims_window [of "int r" "int c" "int (krows K)" P] by simp_all
  have cellw: "at3 ?W a b ch = at3 P (r + a) (c + b) ch"
    if "a < krows K" "b < krows K" for a b ch
    using at3_window [of P "int r" "int c" "int (krows K)" a b ch] assms that by simp
  have "sum_list (map (\<lambda>i. sum_list (map (\<lambda>j. at2 K i j * at3 ?W i j ch) [0..<kcols K])) [0..<krows K])
      = window_sum K P r c ch" for ch
    unfolding window_sum_def
    by (intro arg_cong [where f = sum_list] map_cong refl) (simp add: cellw assms(2))
  then show ?thesis
    using d assms(2) by (simp add: tensordot_def pixel_row_def)
qed

lemma for_each_append:
  "for_each (xs @ ys) body s =
     (case for_each xs body s of Inl e \<Rightarrow> Inl e | Inr s' \<Rightarrow> for_each ys body s')"
  by (induction xs arbitrary: s) (auto split: sum.splits)

lemma np_arange_nat: "np_arange (int n) = map int [0..<n]"
  by (simp add: np_arange_def)

lemma length_pixel_row: "length (pixel_row K P r c) = dim2 P"
  by (simp add: pixel_row_def)

lemma conv_pixel_window:
  assumes "wf3 P" "kcols K = krows K"
    and "int (i * s) + int (krows K) \<le> int (dim0 P)"
    and "int (j * s) + int (krows K) \<le> int (dim1 P)"
  shows "conv_pixel K P (int s) (int i) (int j) out
           = setitem_px out i j (pixel_row K P (i * s) (j * s))"
proof -
  have "int i * int s = int (i * s)" "int j * int s = int (j * s)" by simp_all
  then show ?thesis
    unfolding conv_pixel_def Let_def
    using tensordot_window [OF assms] by (simp del: of_nat_mult)
qed


lemma inner_loop:
  assumes "wf3 P" "kcols K = krows K" "wf3 out" "dim2 out = dim2 P" "i < dim0 out"
    and "m \<le> dim1 out"
    and "\<forall>j<m. int (i * s) + int (krows K) \<le> int (dim0 P) \<and>
                 int (j * s) + int (krows K) \<le> int (dim1 P)"
  shows "for_each (map int [0..<m]) (\<lambda>iy_out. conv_pixel K P (int s) (int i) iy_out) out
           = Inr (out\<lparr>cells := (cells out)
                    [i := map (\<lambda>j. pixel_row K P (i * s) (j * s)) [0..<m] @ drop m (cells out ! i)]\<rparr>)"
  using assms(6,7)
proof (induction m)
  case 0
  then show ?case by simp
next
  case (Suc m)
  let ?row = "cells out ! i"
  let ?v = "\<lambda>j. pixel_row K P (i * s) (j * s)"
  let ?out = "out\<lparr>cells := (cells out)[i := map ?v [0..<m] @ drop m ?row]\<rparr>"
  have len: "length (cells out) = dim0 out" using assms(3) by (rule wf3_rows)
  have rowlen: "length ?row = dim1 out" using assms(3,5) by (rule wf3_row)
  have IH: "for_each (map int [0..<m]) (\<lambda>iy_out. conv_pixel K P (int s) (int i) iy_out) out
      = Inr ?out"
    by (rule Suc.IH) (use Suc.prems in auto)
  have fit: "int (i * s) + int (krows K) \<le> int (dim0 P)"
            "int (m * s) + int (krows K) \<le> int (dim1 P)"
    using Suc.prems by blast+
  have step: "conv_pixel K P (int s) (int i) (int m) ?out = setitem_px ?out i m (?v m)"
    using assms(1,2) fit by (rule conv_pixel_window)
  have m: "m < dim1 out" using Suc.prems by simp
  have "(map ?v [0..<m] @ drop m ?row)[m := ?v m] = map ?v [0..<Suc m] @ drop (Suc m) ?row"
    using m rowlen by (simp add: list_update_append upd_conv_take_nth_drop)
  then have "setitem_px ?out i m (?v m)
      = Inr (out\<lparr>cells := (cells out)[i := map ?v [0..<Suc m] @ drop (Suc m) ?row]\<rparr>)"
    using assms(4,5) m len by (simp add: setitem_px_def length_pixel_row)
  then show ?case
    using IH step
    by (simp add: for_each_append)
qed

lemma outer_loop:
  assumes "wf3 P" "kcols K = krows K" "wf3 out" "dim2 out = dim2 P"
    and "n \<le> dim0 out"
    and "\<forall>i<n. \<forall>j<dim1 out. int (i * s) + int (krows K) \<le> int (dim0 P) \<and>
                 int (j * s) + int (krows K) \<le> int (dim1 P)"
  shows "for_each (map int [0..<n])
           (\<lambda>ix_out. for_each (map int [0..<dim1 out])
              (\<lambda>iy_out. conv_pixel K P (int s) ix_out iy_out)) out
         = Inr (out\<lparr>cells := map (\<lambda>i. map (\<lambda>j. pixel_row K P (i * s) (j * s)) [0..<dim1 out])
                                  [0..<n] @ drop n (cells out)\<rparr>)"
  using assms(5,6)
proof (induction n)
  case 0
  then show ?case by simp
next
  case (Suc n)
  let ?v = "\<lambda>i j. pixel_row K P (i * s) (j * s)"
  let ?new = "\<lambda>n. map (\<lambda>i. map (?v i) [0..<dim1 out]) [0..<n]"
  let ?out = "out\<lparr>cells := ?new n @ drop n (cells out)\<rparr>"
  have len: "length (cells out) = dim0 out" using assms(3) by (rule wf3_rows)
  have n: "n < dim0 out" using Suc.prems by simp
  have IH: "for_each (map int [0..<n])
           (\<lambda>ix_out. for_each (map int [0..<dim1 out])
              (\<lambda>iy_out. conv_pixel K P (int s) ix_out iy_out)) out = Inr ?out"
    by (rule Suc.IH) (use Suc.prems in auto)
  have wf: "wf3 ?out"
    using assms(3,4) n
    by (auto simp add: wf3_def list_all_iff length_pixel_row dest: in_set_dropD)
  have rown: "(?new n @ drop n (cells out)) ! n = cells out ! n"
    using n len by (simp add: nth_append)
  have rowlen: "length (cells out ! n) = dim1 out" using assms(3) n by (rule wf3_row)
  have fit: "\<forall>j<dim1 out. int (n * s) + int (krows K) \<le> int (dim0 P) \<and>
                 int (j * s) + int (krows K) \<le> int (dim1 P)"
    using Suc.prems by blast
  have "for_each (map int [0..<dim1 ?out]) (\<lambda>iy_out. conv_pixel K P (int s) (int n) iy_out) ?out
      = Inr (?out\<lparr>cells := (cells ?out)
               [n := map (?v n) [0..<dim1 ?out] @ drop (dim1 ?out) (cells ?out ! n)]\<rparr>)"
    by (rule inner_loop [OF assms(1,2) wf]) (use assms(4) n fit in simp_all)
  moreover have "(cells ?out)[n := map (?v n) [0..<dim1 ?out] @ drop (dim1 ?out) (cells ?out ! n)]
      = ?new (Suc n) @ drop (Suc n) (cells out)"
    using n len rowlen
    by (simp add: rown list_update_append upd_conv_take_nth_drop)
  ultimately have "for_each (map int [0..<dim1 out]) (\<lambda>iy_out. conv_pixel K P (int s) (int n) iy_out) ?out
      = Inr (out\<lparr>cells := ?new (Suc n) @ drop (Suc n) (cells out)\<rparr>)"
    by simp
  then show ?case
    using IH by (simp add: for_each_append)
qed

subsection \<open>The padding step\<close>

lemma slice_len_pad: "0 < p \<Longrightarrow> slice_len (n + 2 * p) (int p) (- int p) = n"
  by (simp add: slice_len_def slice_index_def)

lemma slice_index_pad: "slice_index (n + 2 * p) (int p) = p"
  by (simp add: slice_index_def)

lemma set_slice_pad:
  assumes "0 < p" "length xs = n + 2 * p"
  shows "set_slice xs (int p) (- int p) ys = take p xs @ ys @ drop (p + n) xs"
  using assms by (simp add: set_slice_def slice_len_pad slice_index_pad)

lemma py_slice_pad:
  assumes "0 < p" "length xs = n + 2 * p"
  shows "py_slice xs (int p) (- int p) = take n (drop p xs)"
  using assms by (simp add: py_slice_def slice_len_pad slice_index_pad)

lemma pad_image_pos:
  assumes "wf3 A" "0 < p"
  shows "pad_image A (int p)
           = Inr \<lparr>dim0 = dim0 A + 2 * p, dim1 = dim1 A + 2 * p, dim2 = dim2 A,
                  cells = padded_cells A p\<rparr>"
proof -
  let ?zpx = "replicate (dim2 A) (0::real)"
  let ?zrow = "replicate (dim1 A + 2 * p) ?zpx"
  let ?Z = "\<lparr>dim0 = dim0 A + 2 * p, dim1 = dim1 A + 2 * p, dim2 = dim2 A,
             cells = replicate (dim0 A + 2 * p) ?zrow\<rparr>"
  have z: "np_zeros (int (dim0 A) + int p * 2) (int (dim1 A) + int p * 2) (int (dim2 A)) = Inr ?Z"
    by (simp add: np_zeros_def nat_add_distrib nat_mult_distrib)
  have len: "length (cells A) = dim0 A" using assms(1) by (rule wf3_rows)
  have shape: "shape3 A = (slice_len (dim0 ?Z) (int p) (- int p),
      slice_len (dim1 ?Z) (int p) (- int p), dim2 ?Z)"
    using assms(2) by (simp add: shape3_def slice_len_pad)
  have rows: "py_slice (cells ?Z) (int p) (- int p) = replicate (dim0 A) ?zrow"
    using assms(2) by (simp add: py_slice_pad [where n = "dim0 A"])
  have inner: "map2 (\<lambda>row brow. set_slice row (int p) (- int p) brow)
        (replicate (dim0 A) ?zrow) (cells A)
      = map (\<lambda>row. replicate p ?zpx @ row @ replicate p ?zpx) (cells A)"
    using assms(2) len
    by (simp add: zip_replicate1 o_def set_slice_pad [where n = "dim1 A"])
  have "set_slice (cells ?Z) (int p) (- int p)
          (map (\<lambda>row. replicate p ?zpx @ row @ replicate p ?zpx) (cells A))
      = padded_cells A p"
    using assms(2) by (simp add: set_slice_pad [where n = "dim0 A"] padded_cells_def)
  then have "setitem_slice3 ?Z (int p) (- int p) (int p) (- int p) A
      = Inr (?Z\<lparr>cells := padded_cells A p\<rparr>)"
    unfolding setitem_slice3_def using shape rows inner by simp
  then show ?thesis
    using assms(2) z by (simp add: pad_image_def Let_def)
qed

lemma pad_image_nonpos: "p \<le> 0 \<Longrightarrow> pad_image A p = Inr A"
  by (simp add: pad_image_def)


lemma wf3_padded: "wf3 A \<Longrightarrow> wf3 (padded A p)"
  by (auto simp add: wf3_def padded_def padded_cells_def list_all_iff)


subsection \<open>The result of a call\<close>

lemma pad_image_wf:
  assumes "wf3 A"
  shows "pad_image A p = Inr (padded_or_self A p)"
proof (cases "p > 0")
  case True
  then have "pad_image A (int (nat p)) = Inr (padded A (nat p))"
    using pad_image_pos [OF assms, of "nat p"] by (simp add: padded_def)
  then show ?thesis using True by (simp add: padded_or_self_def)
next
  case False
  then show ?thesis by (simp add: padded_or_self_def pad_image_nonpos)
qed

lemma padded_or_self_facts:
  assumes "wf3 A"
  shows "wf3 (padded_or_self A p)"
    and "dim2 (padded_or_self A p) = dim2 A"
    and "int (dim0 A) + p * 2 \<le> int (dim0 (padded_or_self A p))"
    and "int (dim1 A) + p * 2 \<le> int (dim1 (padded_or_self A p))"
  using assms by (auto simp add: padded_or_self_def wf3_padded) (simp_all add: padded_def)

lemma stride_fit:
  assumes "0 < s" "int i < d div int s + 1"
  shows "int (i * s) \<le> d"
proof -
  have "int i \<le> d div int s" using assms(2) by simp
  then have "int i * int s \<le> (d div int s) * int s"
    using assms(1) by (intro mult_right_mono) simp_all
  also have "\<dots> \<le> d"
    using assms(1) by (simp add: minus_mod_eq_div_mult [symmetric])
  finally show ?thesis by simp
qed

lemma extent_nonneg:
  assumes "0 < s" "- int s \<le> d"
  shows "0 \<le> d div int s + 1"
proof -
  have "0 \<le> d + int s" "0 < int s"
    using assms by simp_all
  then have "0 \<le> (d + int s) div int s"
    by (simp only: pos_imp_zdiv_nonneg_iff)
  moreover have "(d + int s) div int s = d div int s + 1"
    using assms(1) by simp
  ultimately show ?thesis by simp
qed

lemma clip_cells:
  "cells (np_minimum (np_maximum A 0) 1) = map (map (map clip01)) (cells A)"
  by (simp add: np_minimum_def np_maximum_def clip01_def o_def)

lemma convolve2D_returns:
  assumes "wf3 A" "kcols K = krows K" "0 < s"
    and dx: "- int s \<le> int (dim0 A) + p * 2 - int (krows K)"
    and dy: "- int s \<le> int (dim1 A) + p * 2 - int (krows K)"
  shows "convolve2D A K p (int s)
           = Inr \<lparr>dim0 = nat ((int (dim0 A) + p * 2 - int (krows K)) div int s + 1),
                  dim1 = nat ((int (dim1 A) + p * 2 - int (krows K)) div int s + 1),
                  dim2 = dim2 A,
                  cells = conv_cells K (padded_or_self A p) s
                    (nat ((int (dim0 A) + p * 2 - int (krows K)) div int s + 1))
                    (nat ((int (dim1 A) + p * 2 - int (krows K)) div int s + 1))\<rparr>"
proof -
  let ?P = "padded_or_self A p"
  let ?k = "int (krows K)"
  let ?dx = "int (dim0 A) + p * 2 - ?k" and ?dy = "int (dim1 A) + p * 2 - ?k"
  let ?nx = "?dx div int s + 1" and ?ny = "?dy div int s + 1"
  let ?Z = "\<lparr>dim0 = nat ?nx, dim1 = nat ?ny, dim2 = dim2 A,
             cells = replicate (nat ?nx) (replicate (nat ?ny) (replicate (dim2 A) 0))\<rparr>"
  note P = padded_or_self_facts [OF assms(1), of p]
  have nx0: "0 \<le> ?nx" and ny0: "0 \<le> ?ny"
    using assms(3) dx dy by (simp_all only: extent_nonneg)
  have ex: "out_extent (dim0 A) p ?k (int s) = Inr ?nx"
           "out_extent (dim1 A) p ?k (int s) = Inr ?ny"
    using assms(3) by (simp_all add: out_extent_def floordiv_def)
  have zeros: "np_zeros ?nx ?ny (int (dim2 A)) = Inr ?Z"
    using nx0 ny0 by (simp add: np_zeros_def)
  have wfZ: "wf3 ?Z" by (simp add: wf3_def list_all_iff)
  have fit: "\<forall>i<dim0 ?Z. \<forall>j<dim1 ?Z. int (i * s) + int (krows K) \<le> int (dim0 ?P) \<and>
                 int (j * s) + int (krows K) \<le> int (dim1 ?P)"
  proof (intro allI impI)
    fix i j assume "i < dim0 ?Z" "j < dim1 ?Z"
    then have "int i < ?nx" "int j < ?ny" by simp_all
    then have "int (i * s) \<le> ?dx" "int (j * s) \<le> ?dy"
      using assms(3) by (simp_all only: stride_fit)
    then show "int (i * s) + int (krows K) \<le> int (dim0 ?P) \<and>
                 int (j * s) + int (krows K) \<le> int (dim1 ?P)"
      using P(3,4) by linarith
  qed
  have "for_each (map int [0..<dim0 ?Z])
           (\<lambda>ix_out. for_each (map int [0..<dim1 ?Z])
              (\<lambda>iy_out. conv_pixel K ?P (int s) ix_out iy_out)) ?Z
         = Inr (?Z\<lparr>cells := map (\<lambda>i. map (\<lambda>j. pixel_row K ?P (i * s) (j * s)) [0..<dim1 ?Z])
                                  [0..<dim0 ?Z] @ drop (dim0 ?Z) (cells ?Z)\<rparr>)"
    by (rule outer_loop [OF P(1) assms(2) wfZ _ _ fit]) (simp_all add: P(2))
  then have loops: "conv_loops K ?P (int s) ?nx ?ny ?Z
      = Inr (?Z\<lparr>cells := map (\<lambda>i. map (\<lambda>j. pixel_row K ?P (i * s) (j * s)) [0..<nat ?ny])
                                  [0..<nat ?nx]\<rparr>)"
    by (simp add: conv_loops_def np_arange_def)
  show ?thesis
    by (simp add: convolve2D_def Let_def pad_image_wf [OF assms(1)] ex zeros loops
        np_minimum_def np_maximum_def conv_cells_def pixel_row_def clip01_def o_def P(2))
qed

lemma wf3_conv_cells:
  "wf3 \<lparr>dim0 = n, dim1 = m, dim2 = dim2 P, cells = conv_cells K P s n m\<rparr>"
  by (simp add: wf3_def conv_cells_def list_all_iff)

lemma image_of_dims:
  "dim0 (image_of r c n f) = r" "dim1 (image_of r c n f) = c" "dim2 (image_of r c n f) = n"
  by (simp_all add: image_of_def)

lemma wf3_image_of: "wf3 (image_of r c n f)"
  by (simp add: wf3_def image_of_def list_all_iff)

lemma kernel_of_dims: "krows (kernel_of k f) = k" "kcols (kernel_of k f) = k"
  by (simp_all add: kernel_of_def)

lemma wf2_kernel_of: "wf2 (kernel_of k f)"
  by (simp add: wf2_def kernel_of_def list_all_iff)

lemma extent_nat:
  assumes "0 \<le> p" "1 \<le> s" "0 \<le> int n + 2 * p - int k"
  shows "nat ((int n + p * 2 - int k) div s + 1) = (n + 2 * nat p - k) div nat s + 1"
proof -
  have a: "int n + p * 2 - int k = int (n + 2 * nat p - k)"
    using assms by linarith
  have b: "s = int (nat s)" using assms(2) by simp
  have "(int n + p * 2 - int k) div s = int ((n + 2 * nat p - k) div nat s)"
    by (subst a, subst b) (rule zdiv_int [symmetric])
  then show ?thesis by (simp add: nat_add_distrib)
qed

lemma valid_call_returns:
  assumes "valid_call img K p s"
  shows "convolve2D img K p s
           = Inr \<lparr>dim0 = (dim0 img + 2 * nat p - krows K) div nat s + 1,
                  dim1 = (dim1 img + 2 * nat p - krows K) div nat s + 1,
                  dim2 = dim2 img,
                  cells = conv_cells K (padded_or_self img p) (nat s)
                    ((dim0 img + 2 * nat p - krows K) div nat s + 1)
                    ((dim1 img + 2 * nat p - krows K) div nat s + 1)\<rparr>"
proof -
  have v: "wf3 img" "kcols K = krows K" "0 < nat s" "0 \<le> p" "1 \<le> s"
    "0 \<le> int (dim0 img) + 2 * p - int (krows K)"
    "0 \<le> int (dim1 img) + 2 * p - int (krows K)"
    using assms by (simp_all add: valid_call_def)
  have s: "int (nat s) = s" using v(5) by simp
  have "convolve2D img K p (int (nat s))
           = Inr \<lparr>dim0 = nat ((int (dim0 img) + p * 2 - int (krows K)) div int (nat s) + 1),
                  dim1 = nat ((int (dim1 img) + p * 2 - int (krows K)) div int (nat s) + 1),
                  dim2 = dim2 img,
                  cells = conv_cells K (padded_or_self img p) (nat s)
                    (nat ((int (dim0 img) + p * 2 - int (krows K)) div int (nat s) + 1))
                    (nat ((int (dim1 img) + p * 2 - int (krows K)) div int (nat s) + 1))\<rparr>"
    using v by (intro convolve2D_returns) simp_all
  then show ?thesis
    unfolding s extent_nat [OF v(4,5,6)] extent_nat [OF v(4,5,7)] .
qed

lemma convolve2D_returns_int:
  assumes "wf3 A" "kcols K = krows K" "1 \<le> s"
    and "- s \<le> int (dim0 A) + 2 * p - int (krows K)"
    and "- s \<le> int (dim1 A) + 2 * p - int (krows K)"
  shows "convolve2D A K p s
           = Inr \<lparr>dim0 = nat ((int (dim0 A) + 2 * p - int (krows K)) div s + 1),
                  dim1 = nat ((int (dim1 A) + 2 * p - int (krows K)) div s + 1),
                  dim2 = dim2 A,
                  cells = conv_cells K (padded_or_self A p) (nat s)
                    (nat ((int (dim0 A) + 2 * p - int (krows K)) div s + 1))
                    (nat ((int (dim1 A) + 2 * p - int (krows K)) div s + 1))\<rparr>"
proof -
  obtain n where n: "s = int n" "0 < n"
    using assms(3) zero_less_imp_eq_int [of s] by auto
  have p: "2 * p = p * 2" by simp
  show ?thesis
    using assms(1,2) n(2) assms(4,5) unfolding n(1) p nat_int
    by (rule convolve2D_returns)
qed





lemma clip01_id: "0 \<le> x \<Longrightarrow> x \<le> 1 \<Longrightarrow> clip01 x = x"
  by (simp add: clip01_def)

lemma wf3_clipped: "wf3 (np_minimum (np_maximum A 0) 1) \<longleftrightarrow> wf3 A"
  by (simp add: wf3_def list_all_iff np_minimum_def np_maximum_def)

lemma dims_clipped:
  "dim0 (np_minimum (np_maximum A 0) 1) = dim0 A"
  "dim1 (np_minimum (np_maximum A 0) 1) = dim1 A"
  "dim2 (np_minimum (np_maximum A 0) 1) = dim2 A"
  by (simp_all add: np_minimum_def np_maximum_def)

lemma at3_clipped:
  assumes "wf3 A" "i < dim0 A" "j < dim1 A" "ch < dim2 A"
  shows "at3 (np_minimum (np_maximum A 0) 1) i j ch = clip01 (at3 A i j ch)"
  using assms wf3_rows [OF assms(1)] wf3_row [OF assms(1,2)] wf3_px [OF assms(1,2,3)]
  by (simp add: at3_def clip_cells)

subsection \<open>Calls that fail\<close>

lemma pad_image_total: "\<exists>P. pad_image A p = Inr P"
proof (cases "p > 0")
  case True
  have "slice_len (nat (int n + p * 2)) p (- p) = n" for n
    using True slice_len_pad [of "nat p" n] by (simp add: nat_add_distrib nat_mult_distrib mult.commute)
  then show ?thesis
    using True by (simp add: pad_image_def Let_def np_zeros_def setitem_slice3_def shape3_def)
next
  case False
  then show ?thesis by (simp add: pad_image_def)
qed

lemma extent_negative:
  fixes s d :: int
  assumes "1 \<le> s" "d < - s"
  shows "d div s + 1 < 0"
proof -
  have "d + s < 0" "0 < s" using assms by linarith+
  then have "(d + s) div s < 0" by (simp only: pos_imp_zdiv_neg_iff)
  moreover have "(d + s) div s = d div s + 1" using assms(1) by simp
  ultimately show ?thesis by simp
qed

lemma extent_zero:
  fixes s d :: int
  assumes "1 \<le> s" "- s \<le> d" "d < 0"
  shows "d div s + 1 = 0"
proof -
  have "0 \<le> d + s" "d + s < s" using assms by linarith+
  then have "(d + s) div s = 0" by (rule div_pos_pos_trivial)
  moreover have "(d + s) div s = d div s + 1" using assms(1) by simp
  ultimately show ?thesis by simp
qed

lemma negative_extent_fails:
  assumes "1 \<le> s"
    and "int (dim0 img) + 2 * p - int (krows K) < - s \<or>
         int (dim1 img) + 2 * p - int (krows K) < - s"
  shows "convolve2D img K p s = Inl ValueError"
proof -
  obtain P where P: "pad_image img p = Inr P" using pad_image_total by blast
  have "(int (dim0 img) + p * 2 - int (krows K)) div s + 1 < 0 \<or>
        (int (dim1 img) + p * 2 - int (krows K)) div s + 1 < 0"
    using assms extent_negative [OF assms(1)] by (auto simp add: mult.commute)
  then show ?thesis
    using assms(1) P
    by (auto simp add: convolve2D_def out_extent_def floordiv_def np_zeros_def)
qed

lemma zero_stride_fails: "convolve2D img K p 0 = Inl ZeroDivisionError"
proof -
  obtain P where P: "pad_image img p = Inr P" using pad_image_total by blast
  then show ?thesis
    by (simp add: convolve2D_def out_extent_def floordiv_def)
qed

subsection \<open>The window sums\<close>



subsection \<open>Output shape\<close>

text \<open>
  C2. For every call with valid inputs (\<open>R, C, N \<ge> 1\<close>, square kernel of side \<open>k \<ge> 1\<close>,
  \<open>p \<ge> 0\<close>, \<open>s \<ge> 1\<close>, \<open>R + 2p - k \<ge> 0\<close>, \<open>C + 2p - k \<ge> 0\<close>) the function returns
  an array of shape \<open>((R + 2p - k) // s + 1, (C + 2p - k) // s + 1, N)\<close>. The operands are
  non-negative, so the division is the one of the natural numbers, where truncation and
  floor agree.
\<close>

theorem convolve2D_output_shape:
  assumes "valid_call img K p s"
  shows "\<exists>out. convolve2D img K p s = Inr out \<and> wf3 out \<and>
           shape3 out = ((dim0 img + 2 * nat p - krows K) div nat s + 1,
                         (dim1 img + 2 * nat p - krows K) div nat s + 1,
                         dim2 img)"
proof -
  have "dim2 (padded_or_self img p) = dim2 img"
    using assms by (simp add: valid_call_def padded_or_self_facts)
  then show ?thesis
    using valid_call_returns [OF assms]
      wf3_conv_cells [of _ _ "padded_or_self img p" K "nat s"]
    by (simp add: shape3_def)
qed

theorem convolve2D_output_shape_witness:
  "valid_call (image_of 4 4 1 (\<lambda>i j ch. 1 / 2)) (kernel_of 3 (\<lambda>a b. 1 / 9)) 1 1 \<and>
   (\<exists>out. convolve2D (image_of 4 4 1 (\<lambda>i j ch. 1 / 2)) (kernel_of 3 (\<lambda>a b. 1 / 9)) 1 1 = Inr out \<and>
      wf3 out \<and> shape3 out = (4, 4, 1))"
proof -
  have v: "valid_call (image_of 4 4 1 (\<lambda>i j ch. 1 / 2)) (kernel_of 3 (\<lambda>a b. 1 / 9)) 1 1"
    by (simp add: valid_call_def wf3_image_of wf2_kernel_of image_of_dims kernel_of_dims)
  show ?thesis
    using v convolve2D_output_shape [OF v]
    by (simp add: image_of_dims kernel_of_dims)
qed

subsection \<open>The clamp\<close>

text \<open>
  On doubles the clamp is applied to the array the two loops leave behind, and it sends
  every sample that is not NaN into \<open>[0, 1]\<close>; NaN it passes on.
\<close>

lemma fp_clamp_cases:
  "fp_minimum (fp_maximum x (Fin 0)) (Fin 1) = NaN \<and> x = NaN \<or>
   in_unit_interval (fp_minimum (fp_maximum x (Fin 0)) (Fin 1))"
  by (cases x) simp_all

lemma convolve2D_fp_steps:
  assumes "convolve2D_fp img K p s = Inr out"
  shows "\<exists>P nx_out ny_out Z raw.
           pad_image_fp img p = Inr P \<and>
           out_extent (fdim0 img) p (int (fkrows K)) s = Inr nx_out \<and>
           out_extent (fdim1 img) p (int (fkrows K)) s = Inr ny_out \<and>
           np_zeros_fp nx_out ny_out (int (fdim2 img)) = Inr Z \<and>
           conv_loops_fp K P s nx_out ny_out Z = Inr raw \<and>
           out = np_minimum_fp (np_maximum_fp raw (Fin 0)) (Fin 1)"
  using assms by (auto simp add: convolve2D_fp_def Let_def split: sum.splits)

lemma convolve2D_fp_range:
  assumes "convolve2D_fp img K p s = Inr out"
    and "row \<in> set (fcells out)" "px \<in> set row" "x \<in> set px"
  shows "x = NaN \<or> in_unit_interval x"
proof -
  obtain raw where "out = np_minimum_fp (np_maximum_fp raw (Fin 0)) (Fin 1)"
    using convolve2D_fp_steps [OF assms(1)] by blast
  then obtain y where "x = fp_minimum (fp_maximum y (Fin 0)) (Fin 1)"
    using assms(2,3,4) by (auto simp add: np_minimum_fp_def np_maximum_fp_def)
  then show ?thesis using fp_clamp_cases [of y] by auto
qed

text \<open>
  A sum that holds both infinities is NaN, in whatever order its terms are added.
\<close>

lemma foldl_fp_add_NaN: "foldl fp_add NaN xs = NaN"
  by (induction xs) simp_all

lemma foldl_fp_add_PInf: "NInf \<in> set xs \<Longrightarrow> foldl fp_add PInf xs = NaN"
proof (induction xs)
  case Nil
  then show ?case by simp
next
  case (Cons x xs)
  then show ?case by (cases x) (auto simp add: foldl_fp_add_NaN)
qed

lemma foldl_fp_add_NInf: "PInf \<in> set xs \<Longrightarrow> foldl fp_add NInf xs = NaN"
proof (induction xs)
  case Nil
  then show ?case by simp
next
  case (Cons x xs)
  then show ?case by (cases x) (auto simp add: foldl_fp_add_NaN)
qed

lemma fp_add_PInf: "fp_add a PInf = NaN \<or> fp_add a PInf = PInf"
  by (cases a) simp_all

lemma fp_add_NInf: "fp_add a NInf = NaN \<or> fp_add a NInf = NInf"
  by (cases a) simp_all

lemma sum_of_both_infinities:
  assumes "PInf \<in> set xs" "NInf \<in> set xs"
  shows "foldl fp_add a xs = NaN"
  using assms
proof (induction xs arbitrary: a)
  case Nil
  then show ?case by simp
next
  case (Cons x xs)
  show ?case
  proof (cases x)
    case (Fin b)
    then have "PInf \<in> set xs" "NInf \<in> set xs" using Cons.prems by auto
    then show ?thesis by (simp add: Cons.IH)
  next
    case PInf
    then have "NInf \<in> set xs" using Cons.prems by auto
    then show ?thesis
      using PInf fp_add_PInf [of a] by (auto simp add: foldl_fp_add_NaN foldl_fp_add_PInf)
  next
    case NInf
    then have "PInf \<in> set xs" using Cons.prems by auto
    then show ?thesis
      using NInf fp_add_NInf [of a] by (auto simp add: foldl_fp_add_NaN foldl_fp_add_NInf)
  next
    case NaN
    then have "fp_add a x = NaN" by (cases a) simp_all
    then show ?thesis by (simp add: foldl_fp_add_NaN)
  qed
qed

lemma overflow_products:
  assumes "x = 10 ^ 308"
  shows "fp_mul (Fin 10) (Fin x) = PInf"
    and "fp_mul (Fin (- 10)) (Fin x) = NInf"
    and "fp_mul (Fin 0) (Fin x) = Fin 0"
  using assms by (simp_all add: fp_round_def overflow_bound_def)

lemma nan_output:
  assumes "x = 10 ^ 308"
  shows "convolve2D_fp
           \<lparr>fdim0 = 2, fdim1 = 2, fdim2 = 1,
            fcells = [[[Fin x], [Fin x]], [[Fin x], [Fin x]]]\<rparr>
           \<lparr>fkrows = 2, fkcols = 2, fweights = [[Fin 10, Fin (- 10)], [Fin 0, Fin 0]]\<rparr> 0 1
         = Inr \<lparr>fdim0 = 1, fdim1 = 1, fdim2 = 1, fcells = [[[NaN]]]\<rparr>"
  by (simp add: convolve2D_fp_def pad_image_fp_def out_extent_def floordiv_def np_zeros_fp_def
      conv_loops_fp_def np_arange_def conv_pixel_fp_def slice3_fp_def slice_len_def
      slice_index_def py_slice_def tensordot_fp_def setitem_px_fp_def np_maximum_fp_def
      np_minimum_fp_def upt_conv_Cons overflow_products [OF assms] del: fp_mul.simps)

text \<open>
  C3. Every element of the output of a valid call should lie in \<open>[0, 1]\<close>, and the
  function's own comment, \<^verbatim>\<open># truncate to [0, 1]\<close>, says so. The function does not achieve
  it. The \<open>2 \<times> 2 \<times> 1\<close> image whose samples are all \<open>1e308\<close>, with the kernel
  \<open>[[10, -10], [0, 0]]\<close>, padding 0 and stride 1, is a valid call on finite values. Its one
  window gives the products \<open>inf\<close>, \<open>-inf\<close>, \<open>0\<close>, \<open>0\<close>, whose sum is NaN;
  \<^verbatim>\<open>np.maximum\<close> and \<^verbatim>\<open>np.minimum\<close> pass NaN on, and the output \<open>[[[nan]]]\<close> is not in
  \<open>[0, 1]\<close>.
\<close>

theorem convolve2D_fp_nan_output:
  "valid_call_fp
     \<lparr>fdim0 = 2, fdim1 = 2, fdim2 = 1,
      fcells = [[[Fin (10 ^ 308)], [Fin (10 ^ 308)]], [[Fin (10 ^ 308)], [Fin (10 ^ 308)]]]\<rparr>
     \<lparr>fkrows = 2, fkcols = 2, fweights = [[Fin 10, Fin (- 10)], [Fin 0, Fin 0]]\<rparr> 0 1 \<and>
   convolve2D_fp
     \<lparr>fdim0 = 2, fdim1 = 2, fdim2 = 1,
      fcells = [[[Fin (10 ^ 308)], [Fin (10 ^ 308)]], [[Fin (10 ^ 308)], [Fin (10 ^ 308)]]]\<rparr>
     \<lparr>fkrows = 2, fkcols = 2, fweights = [[Fin 10, Fin (- 10)], [Fin 0, Fin 0]]\<rparr> 0 1
     = Inr \<lparr>fdim0 = 1, fdim1 = 1, fdim2 = 1, fcells = [[[NaN]]]\<rparr> \<and>
   \<not> all_samples in_unit_interval \<lparr>fdim0 = 1, fdim1 = 1, fdim2 = 1, fcells = [[[NaN]]]\<rparr>"
proof (intro conjI)
  show "valid_call_fp
     \<lparr>fdim0 = 2, fdim1 = 2, fdim2 = 1,
      fcells = [[[Fin (10 ^ 308)], [Fin (10 ^ 308)]], [[Fin (10 ^ 308)], [Fin (10 ^ 308)]]]\<rparr>
     \<lparr>fkrows = 2, fkcols = 2, fweights = [[Fin 10, Fin (- 10)], [Fin 0, Fin 0]]\<rparr> 0 1"
    by (simp add: valid_call_fp_def wf3_fp_def wf2_fp_def all_samples_def)
  show "convolve2D_fp
     \<lparr>fdim0 = 2, fdim1 = 2, fdim2 = 1,
      fcells = [[[Fin (10 ^ 308)], [Fin (10 ^ 308)]], [[Fin (10 ^ 308)], [Fin (10 ^ 308)]]]\<rparr>
     \<lparr>fkrows = 2, fkcols = 2, fweights = [[Fin 10, Fin (- 10)], [Fin 0, Fin 0]]\<rparr> 0 1
     = Inr \<lparr>fdim0 = 1, fdim1 = 1, fdim2 = 1, fcells = [[[NaN]]]\<rparr>"
    by (rule nan_output) (rule refl)
  show "\<not> all_samples in_unit_interval \<lparr>fdim0 = 1, fdim1 = 1, fdim2 = 1, fcells = [[[NaN]]]\<rparr>"
    by (simp add: all_samples_def)
qed

subsection \<open>A kernel larger than the padded image\<close>

text \<open>
  C4, as the code has it. For a stride \<open>s \<ge> 1\<close>, when \<open>R + 2p - k < -s\<close> or
  \<open>C + 2p - k < -s\<close> the call fails: an output extent is negative and \<^verbatim>\<open>np.zeros\<close> raises
  ValueError. The function has no check of its own for a kernel that does not fit.
\<close>

theorem convolve2D_negative_extent:
  assumes "1 \<le> s"
    and "int (dim0 img) + 2 * p - int (krows K) < - s \<or>
         int (dim1 img) + 2 * p - int (krows K) < - s"
  shows "convolve2D img K p s = Inl ValueError"
  using assms by (rule negative_extent_fails)

theorem convolve2D_negative_extent_witness:
  "(1::int) \<le> 1 \<and> int 4 + 2 * 0 - int 6 < - 1 \<and>
   convolve2D (image_of 4 4 1 (\<lambda>i j ch. 1)) (kernel_of 6 (\<lambda>a b. 1)) 0 1 = Inl ValueError"
  using convolve2D_negative_extent [of 1 "image_of 4 4 1 (\<lambda>i j ch. 1)" 0 "kernel_of 6 (\<lambda>a b. 1)"]
  by (simp add: image_of_dims kernel_of_dims)

text \<open>
  With \<open>R + 2p - k < 0\<close> alone the call need not fail. The \<open>4 \<times> 4\<close> image with a kernel of
  side 5, padding 0 and stride 1: both output extents are \<open>(4 - 5) // 1 + 1 = 0\<close>, the loops
  run over nothing, and an empty image of shape \<open>(0, 0, 1)\<close> is returned.
\<close>

theorem kernel_too_large_counterexample:
  "int 4 + 2 * 0 - int 5 < 0 \<and>
   convolve2D
     \<lparr>dim0 = 4, dim1 = 4, dim2 = 1,
      cells = [[[1], [1], [1], [1]], [[1], [1], [1], [1]],
               [[1], [1], [1], [1]], [[1], [1], [1], [1]]]\<rparr>
     \<lparr>krows = 5, kcols = 5,
      weights = [[1, 1, 1, 1, 1], [1, 1, 1, 1, 1], [1, 1, 1, 1, 1],
                 [1, 1, 1, 1, 1], [1, 1, 1, 1, 1]]\<rparr> 0 1
     = Inr \<lparr>dim0 = 0, dim1 = 0, dim2 = 1, cells = []\<rparr>"
  by code_simp

subsection \<open>Strides that are not positive\<close>

lemma neg_stride_extent_negative:
  fixes s d :: int
  assumes "s < 0" "- s < d"
  shows "d div s + 1 < 0"
proof -
  have "(- d) div (- s) + 1 < 0"
    using assms by (intro extent_negative) simp_all
  then show ?thesis by simp
qed

lemma neg_stride_extent_zero:
  fixes s d :: int
  assumes "s < 0" "0 < d" "d \<le> - s"
  shows "d div s + 1 = 0"
proof -
  have "(- d) div (- s) + 1 = 0"
    using assms by (intro extent_zero) simp_all
  then show ?thesis by simp
qed

lemma negative_stride_fails:
  assumes "s < 0"
    and "- s < int (dim0 img) + 2 * p - int (krows K) \<or>
         - s < int (dim1 img) + 2 * p - int (krows K)"
  shows "convolve2D img K p s = Inl ValueError"
proof -
  obtain P where P: "pad_image img p = Inr P" using pad_image_total by blast
  have "(int (dim0 img) + p * 2 - int (krows K)) div s + 1 < 0 \<or>
        (int (dim1 img) + p * 2 - int (krows K)) div s + 1 < 0"
    using assms neg_stride_extent_negative [OF assms(1)] by (auto simp add: mult.commute)
  then show ?thesis
    using assms(1) P
    by (auto simp add: convolve2D_def out_extent_def floordiv_def np_zeros_def)
qed

lemma conv_pixel_origin:
  assumes "wf3 P" "kcols K = krows K"
    and "int (krows K) \<le> int (dim0 P)" "int (krows K) \<le> int (dim1 P)"
  shows "conv_pixel K P stride 0 0 out = setitem_px out 0 0 (pixel_row K P 0 0)"
proof -
  have "tensordot K (slice3 P (int 0) (int 0 + int (krows K)) (int 0) (int 0 + int (krows K)))
      = Inr (pixel_row K P 0 0)"
    using assms by (intro tensordot_window) simp_all
  then show ?thesis by (simp add: conv_pixel_def)
qed

lemma negative_stride_returns:
  assumes "wf3 img" "kcols K = krows K" "s < 0"
    and "0 \<le> int (dim0 img) + 2 * p - int (krows K)"
    and "int (dim0 img) + 2 * p - int (krows K) \<le> - s"
    and "0 \<le> int (dim1 img) + 2 * p - int (krows K)"
    and "int (dim1 img) + 2 * p - int (krows K) \<le> - s"
  shows "\<exists>out. convolve2D img K p s = Inr out \<and> wf3 out \<and>
           shape3 out = (if int (dim0 img) + 2 * p - int (krows K) = 0 then 1 else 0,
                         if int (dim1 img) + 2 * p - int (krows K) = 0 then 1 else 0,
                         dim2 img)"
proof -
  let ?P = "padded_or_self img p"
  let ?dx = "int (dim0 img) + 2 * p - int (krows K)"
  let ?dy = "int (dim1 img) + 2 * p - int (krows K)"
  let ?n = "if ?dx = 0 then 1 else 0 :: nat" and ?m = "if ?dy = 0 then 1 else 0 :: nat"
  let ?Z = "\<lparr>dim0 = ?n, dim1 = ?m, dim2 = dim2 img,
             cells = replicate ?n (replicate ?m (replicate (dim2 img) 0))\<rparr>"
  note P = padded_or_self_facts [OF assms(1), of p]
  have pad: "pad_image img p = Inr ?P" using assms(1) by (rule pad_image_wf)
  have ex: "?dx div s + 1 = int ?n"
  proof (cases "?dx = 0")
    case True
    then show ?thesis by simp
  next
    case False
    then have "?dx div s + 1 = 0"
      using assms(3,4,5) by (intro neg_stride_extent_zero) simp_all
    then show ?thesis using False by simp
  qed
  have ey: "?dy div s + 1 = int ?m"
  proof (cases "?dy = 0")
    case True
    then show ?thesis by simp
  next
    case False
    then have "?dy div s + 1 = 0"
      using assms(3,6,7) by (intro neg_stride_extent_zero) simp_all
    then show ?thesis using False by simp
  qed
  have oe: "out_extent (dim0 img) p (int (krows K)) s = Inr (int ?n)"
    "out_extent (dim1 img) p (int (krows K)) s = Inr (int ?m)"
    using assms(3) ex ey by (simp_all add: out_extent_def floordiv_def mult.commute)
  have zeros: "np_zeros (int ?n) (int ?m) (int (dim2 img)) = Inr ?Z"
    by (simp add: np_zeros_def)
  have "\<exists>raw. conv_loops K ?P s (int ?n) (int ?m) ?Z = Inr raw \<and> wf3 raw \<and>
          shape3 raw = (?n, ?m, dim2 img)"
  proof (cases "?dx = 0 \<and> ?dy = 0")
    case True
    then have "int (krows K) \<le> int (dim0 ?P)" "int (krows K) \<le> int (dim1 ?P)"
      using P(3,4) by linarith+
    then have "conv_pixel K ?P s 0 0 ?Z = setitem_px ?Z 0 0 (pixel_row K ?P 0 0)"
      using P(1) assms(2) by (intro conv_pixel_origin)
    then show ?thesis
      using True
      by (simp add: conv_loops_def np_arange_def setitem_px_def length_pixel_row P(2)
          wf3_def shape3_def)
  next
    case False
    then have "conv_loops K ?P s (int ?n) (int ?m) ?Z = Inr ?Z"
      by (auto simp add: conv_loops_def np_arange_def)
    then show ?thesis
      by (auto simp add: wf3_def shape3_def)
  qed
  then obtain raw where raw: "conv_loops K ?P s (int ?n) (int ?m) ?Z = Inr raw" "wf3 raw"
    "shape3 raw = (?n, ?m, dim2 img)"
    by blast
  have "convolve2D img K p s = Inr (np_minimum (np_maximum raw 0) 1)"
    using pad oe zeros raw(1) by (simp add: convolve2D_def)
  moreover have "wf3 (np_minimum (np_maximum raw 0) 1)"
    using raw(2) by (simp add: wf3_clipped)
  moreover have "shape3 (np_minimum (np_maximum raw 0) 1) = (?n, ?m, dim2 img)"
    using raw(3) by (simp add: shape3_def dims_clipped)
  ultimately show ?thesis by blast
qed

text \<open>
  C5, as the code has it. The function has no check on the stride; a call with \<open>s \<le> 0\<close>
  fails where the computation of the output extents or their allocation fails, which is
  after the padding step. With \<open>s = 0\<close> the floor division raises ZeroDivisionError,
  whatever the other arguments. With \<open>s < 0\<close> and \<open>R + 2p - k > |s|\<close> or
  \<open>C + 2p - k > |s|\<close> an output extent is negative and \<^verbatim>\<open>np.zeros\<close> raises ValueError,
  whatever the other arguments. With \<open>s < 0\<close>, a square kernel and both differences between
  0 and \<open>|s|\<close> no error is raised: the output has extent 1 on an axis whose difference
  is 0 and extent 0 on an axis whose difference is positive.
\<close>

theorem convolve2D_nonpositive_stride:
  "(s = 0 \<longrightarrow> convolve2D img K p s = Inl ZeroDivisionError) \<and>
   (s < 0 \<and> (- s < int (dim0 img) + 2 * p - int (krows K) \<or>
              - s < int (dim1 img) + 2 * p - int (krows K)) \<longrightarrow>
      convolve2D img K p s = Inl ValueError) \<and>
   (s < 0 \<and> wf3 img \<and> kcols K = krows K \<and>
    0 \<le> int (dim0 img) + 2 * p - int (krows K) \<and>
    int (dim0 img) + 2 * p - int (krows K) \<le> - s \<and>
    0 \<le> int (dim1 img) + 2 * p - int (krows K) \<and>
    int (dim1 img) + 2 * p - int (krows K) \<le> - s \<longrightarrow>
      (\<exists>out. convolve2D img K p s = Inr out \<and> wf3 out \<and>
         shape3 out = (if int (dim0 img) + 2 * p - int (krows K) = 0 then 1 else 0,
                       if int (dim1 img) + 2 * p - int (krows K) = 0 then 1 else 0,
                       dim2 img)))"
proof (intro conjI impI)
  assume "s = 0"
  then show "convolve2D img K p s = Inl ZeroDivisionError"
    by (simp add: zero_stride_fails)
next
  assume "s < 0 \<and> (- s < int (dim0 img) + 2 * p - int (krows K) \<or>
              - s < int (dim1 img) + 2 * p - int (krows K))"
  then show "convolve2D img K p s = Inl ValueError"
    by (intro negative_stride_fails) simp_all
next
  assume "s < 0 \<and> wf3 img \<and> kcols K = krows K \<and>
    0 \<le> int (dim0 img) + 2 * p - int (krows K) \<and>
    int (dim0 img) + 2 * p - int (krows K) \<le> - s \<and>
    0 \<le> int (dim1 img) + 2 * p - int (krows K) \<and>
    int (dim1 img) + 2 * p - int (krows K) \<le> - s"
  then show "\<exists>out. convolve2D img K p s = Inr out \<and> wf3 out \<and>
         shape3 out = (if int (dim0 img) + 2 * p - int (krows K) = 0 then 1 else 0,
                       if int (dim1 img) + 2 * p - int (krows K) = 0 then 1 else 0,
                       dim2 img)"
    by (intro negative_stride_returns) simp_all
qed

theorem convolve2D_nonpositive_stride_witness:
  "convolve2D (image_of 3 3 1 (\<lambda>i j ch. 1 / 10)) (kernel_of 3 (\<lambda>a b. 1)) 1 0
     = Inl ZeroDivisionError \<and>
   ((- 1 :: int) < 0 \<and> - (- 1) < int 5 + 2 * 0 - int 3 \<and>
    convolve2D (image_of 5 5 1 (\<lambda>i j ch. 1 / 10)) (kernel_of 3 (\<lambda>a b. 1)) 0 (- 1)
      = Inl ValueError) \<and>
   ((- 2 :: int) < 0 \<and> wf3 (image_of 4 3 1 (\<lambda>i j ch. 1 / 10)) \<and>
    (0::int) \<le> int 4 + 2 * 0 - int 3 \<and> int 4 + 2 * 0 - int 3 \<le> - (- 2) \<and>
    int 3 + 2 * 0 - int 3 = 0 \<and>
    (\<exists>out. convolve2D (image_of 4 3 1 (\<lambda>i j ch. 1 / 10)) (kernel_of 3 (\<lambda>a b. 1)) 0 (- 2)
             = Inr out \<and> wf3 out \<and> shape3 out = (0, 1, 1)))"
proof -
  let ?K = "kernel_of 3 (\<lambda>a b. 1)"
  note t0 = convolve2D_nonpositive_stride [of 0 "image_of 3 3 1 (\<lambda>i j ch. 1 / 10)" ?K 1]
  note t1 = convolve2D_nonpositive_stride [of "- 1" "image_of 5 5 1 (\<lambda>i j ch. 1 / 10)" ?K 0]
  note t2 = convolve2D_nonpositive_stride [of "- 2" "image_of 4 3 1 (\<lambda>i j ch. 1 / 10)" ?K 0]
  have a: "convolve2D (image_of 3 3 1 (\<lambda>i j ch. 1 / 10)) ?K 1 0 = Inl ZeroDivisionError"
    using t0 by simp
  have b: "convolve2D (image_of 5 5 1 (\<lambda>i j ch. 1 / 10)) ?K 0 (- 1) = Inl ValueError"
    using t1 by (simp add: image_of_dims kernel_of_dims)
  have c: "\<exists>out. convolve2D (image_of 4 3 1 (\<lambda>i j ch. 1 / 10)) ?K 0 (- 2) = Inr out \<and>
      wf3 out \<and> shape3 out = (0, 1, 1)"
    using t2 by (simp add: image_of_dims kernel_of_dims wf3_image_of)
  show ?thesis
    using a b c by (simp add: wf3_image_of)
qed

text \<open>
  A stride \<open>s \<le> 0\<close> alone does not make the call fail. The \<open>3 \<times> 3\<close> image with a kernel
  of side 3, padding 0 and stride \<open>-1\<close>: both output extents are \<open>0 // (-1) + 1 = 1\<close>, the
  one window is the whole image, and a \<open>1 \<times> 1\<close> image is returned.
\<close>

theorem nonpositive_stride_counterexample:
  "(- 1 :: int) \<le> 0 \<and>
   convolve2D
     \<lparr>dim0 = 3, dim1 = 3, dim2 = 1,
      cells = [[[1 / 10], [1 / 10], [1 / 10]],
               [[1 / 10], [1 / 10], [1 / 10]],
               [[1 / 10], [1 / 10], [1 / 10]]]\<rparr>
     \<lparr>krows = 3, kcols = 3, weights = [[1, 1, 1], [1, 1, 1], [1, 1, 1]]\<rparr> 0 (- 1)
     = Inr \<lparr>dim0 = 1, dim1 = 1, dim2 = 1, cells = [[[9 / 10]]]\<rparr>"
  by code_simp

subsection \<open>Negative padding\<close>

text \<open>
  C6, as the code has it. With padding \<open>p < 0\<close> the test \<^verbatim>\<open>padding > 0\<close> fails and the
  image is used unpadded, while the output extents are still computed from \<open>p\<close>. For a
  stride \<open>s \<ge> 1\<close> and a square kernel the call fails, with the ValueError of
  \<^verbatim>\<open>np.zeros\<close>, exactly when \<open>R + 2p - k < -s\<close> or \<open>C + 2p - k < -s\<close>; otherwise it returns
  the image of shape \<open>((R + 2p - k) // s + 1, (C + 2p - k) // s + 1, N)\<close> of the clamped
  window sums of the unpadded image. No failure is specific to the padding.
\<close>

theorem convolve2D_negative_padding:
  assumes "wf3 img" "kcols K = krows K" "p < 0" "1 \<le> s"
  shows "convolve2D img K p s =
           (if int (dim0 img) + 2 * p - int (krows K) < - s \<or>
               int (dim1 img) + 2 * p - int (krows K) < - s
            then Inl ValueError
            else Inr \<lparr>dim0 = nat ((int (dim0 img) + 2 * p - int (krows K)) div s + 1),
                       dim1 = nat ((int (dim1 img) + 2 * p - int (krows K)) div s + 1),
                       dim2 = dim2 img,
                       cells = conv_cells K img (nat s)
                         (nat ((int (dim0 img) + 2 * p - int (krows K)) div s + 1))
                         (nat ((int (dim1 img) + 2 * p - int (krows K)) div s + 1))\<rparr>)"
proof (cases "int (dim0 img) + 2 * p - int (krows K) < - s \<or>
               int (dim1 img) + 2 * p - int (krows K) < - s")
  case True
  then show ?thesis
    using negative_extent_fails [OF assms(4)] by simp
next
  case False
  then have "- s \<le> int (dim0 img) + 2 * p - int (krows K)"
    "- s \<le> int (dim1 img) + 2 * p - int (krows K)"
    by linarith+
  then show ?thesis
    using False assms(3) convolve2D_returns_int [OF assms(1,2,4)]
    by (simp add: padded_or_self_def)
qed

theorem convolve2D_negative_padding_witness:
  "wf3 (image_of 5 5 1 (\<lambda>i j ch. 1 / 10)) \<and> (- 1 :: int) < 0 \<and> (1::int) \<le> 1 \<and>
   convolve2D (image_of 5 5 1 (\<lambda>i j ch. 1 / 10)) (kernel_of 3 (\<lambda>a b. 1)) (- 1) 1
     = Inr \<lparr>dim0 = 1, dim1 = 1, dim2 = 1,
            cells = conv_cells (kernel_of 3 (\<lambda>a b. 1)) (image_of 5 5 1 (\<lambda>i j ch. 1 / 10)) 1 1 1\<rparr>"
  using convolve2D_negative_padding [of "image_of 5 5 1 (\<lambda>i j ch. 1 / 10)"
      "kernel_of 3 (\<lambda>a b. 1)" "- 1" 1]
  by (simp add: wf3_image_of image_of_dims kernel_of_dims)

text \<open>
  The \<open>5 \<times> 5\<close> image with a kernel of side 3, padding \<open>-1\<close> and stride 1: the output
  extents are \<open>(5 - 2 - 3) // 1 + 1 = 1\<close>, and the one output pixel is the sum over the
  top-left \<open>3 \<times> 3\<close> window of the image itself.
\<close>

theorem negative_padding_counterexample:
  "(- 1 :: int) < 0 \<and>
   convolve2D
     \<lparr>dim0 = 5, dim1 = 5, dim2 = 1,
      cells = [[[1 / 10], [1 / 10], [1 / 10], [0], [0]],
               [[1 / 10], [1 / 10], [1 / 10], [0], [0]],
               [[1 / 10], [1 / 10], [1 / 10], [0], [0]],
               [[0], [0], [0], [0], [0]],
               [[0], [0], [0], [0], [0]]]\<rparr>
     \<lparr>krows = 3, kcols = 3, weights = [[1, 1, 1], [1, 1, 1], [1, 1, 1]]\<rparr> (- 1) 1
     = Inr \<lparr>dim0 = 1, dim1 = 1, dim2 = 1, cells = [[[9 / 10]]]\<rparr>"
  by code_simp

subsection \<open>Strides that do not divide the extent\<close>

lemma nat_dvd_extent:
  assumes "0 \<le> p" "1 \<le> s" "0 \<le> int n + 2 * p - int k"
  shows "s dvd int n + 2 * p - int k \<longleftrightarrow> nat s dvd n + 2 * nat p - k"
proof -
  have a: "int n + 2 * p - int k = int (n + 2 * nat p - k)"
    using assms by linarith
  have b: "s = int (nat s)" using assms(2) by simp
  show ?thesis
    by (subst a, subst b) (simp only: int_dvd_int_iff)
qed

lemma last_window_short:
  fixes d s :: nat
  assumes "\<not> s dvd d" "k \<le> n" "d = n - k"
  shows "(d div s + 1 - 1) * s + k < n"
proof -
  have "d mod s \<noteq> 0" using assms(1) by (simp add: dvd_eq_mod_eq_0)
  moreover have "d div s * s + d mod s = d" by simp
  ultimately have "d div s * s < d" by linarith
  then show ?thesis using assms(2,3) by simp
qed

lemma stride_truncation_general:
  assumes "valid_call img K p s"
  shows "\<exists>out. convolve2D img K p s = Inr out \<and>
           shape3 out = ((dim0 img + 2 * nat p - krows K) div nat s + 1,
                         (dim1 img + 2 * nat p - krows K) div nat s + 1,
                         dim2 img) \<and>
           (\<not> s dvd int (dim0 img) + 2 * p - int (krows K) \<longrightarrow>
              (dim0 out - 1) * nat s + krows K < dim0 img + 2 * nat p) \<and>
           (\<not> s dvd int (dim1 img) + 2 * p - int (krows K) \<longrightarrow>
              (dim1 out - 1) * nat s + krows K < dim1 img + 2 * nat p)"
proof -
  have v: "0 \<le> p" "1 \<le> s"
    "0 \<le> int (dim0 img) + 2 * p - int (krows K)"
    "0 \<le> int (dim1 img) + 2 * p - int (krows K)"
    using assms(1) by (simp_all add: valid_call_def)
  have k: "krows K \<le> dim0 img + 2 * nat p" "krows K \<le> dim1 img + 2 * nat p"
    using v by linarith+
  have x: "((dim0 img + 2 * nat p - krows K) div nat s + 1 - 1) * nat s + krows K
             < dim0 img + 2 * nat p"
    if "\<not> s dvd int (dim0 img) + 2 * p - int (krows K)"
    using that k(1) unfolding nat_dvd_extent [OF v(1,2,3)] by (intro last_window_short) simp_all
  have y: "((dim1 img + 2 * nat p - krows K) div nat s + 1 - 1) * nat s + krows K
             < dim1 img + 2 * nat p"
    if "\<not> s dvd int (dim1 img) + 2 * p - int (krows K)"
    using that k(2) unfolding nat_dvd_extent [OF v(1,2,4)] by (intro last_window_short) simp_all
  show ?thesis
    using valid_call_returns [OF assms(1)] x y by (simp add: shape3_def)
qed

text \<open>
  C7. A valid call in which the stride does not divide \<open>R + 2p - k\<close> or \<open>C + 2p - k\<close>
  raises no error: it returns the image of the truncated extents, and on an axis the
  stride does not divide the last window ends before the last row (column) of the padded
  image, so the trailing rows (columns) belong to no window. And every image of shape
  \<open>(5, 5, 1)\<close> convolved with a kernel of side 3, padding 0 and stride 2 gives an output of
  shape \<open>(2, 2, 1)\<close>, as \<open>(5 - 3) // 2 + 1 = 2\<close>.
\<close>

theorem convolve2D_stride_truncation:
  "(valid_call img K p s \<and>
    (\<not> s dvd int (dim0 img) + 2 * p - int (krows K) \<or>
     \<not> s dvd int (dim1 img) + 2 * p - int (krows K)) \<longrightarrow>
    (\<exists>out. convolve2D img K p s = Inr out \<and>
       shape3 out = ((dim0 img + 2 * nat p - krows K) div nat s + 1,
                     (dim1 img + 2 * nat p - krows K) div nat s + 1,
                     dim2 img) \<and>
       (\<not> s dvd int (dim0 img) + 2 * p - int (krows K) \<longrightarrow>
          (dim0 out - 1) * nat s + krows K < dim0 img + 2 * nat p) \<and>
       (\<not> s dvd int (dim1 img) + 2 * p - int (krows K) \<longrightarrow>
          (dim1 out - 1) * nat s + krows K < dim1 img + 2 * nat p))) \<and>
   (wf3 img5 \<and> shape3 img5 = (5, 5, 1) \<and> wf2 K3 \<and> krows K3 = 3 \<and> kcols K3 = 3 \<longrightarrow>
    (\<exists>out. convolve2D img5 K3 0 2 = Inr out \<and> shape3 out = (2, 2, 1)))"
proof (intro conjI impI)
  assume "valid_call img K p s \<and>
    (\<not> s dvd int (dim0 img) + 2 * p - int (krows K) \<or>
     \<not> s dvd int (dim1 img) + 2 * p - int (krows K))"
  then have "valid_call img K p s" by simp
  then show "\<exists>out. convolve2D img K p s = Inr out \<and>
       shape3 out = ((dim0 img + 2 * nat p - krows K) div nat s + 1,
                     (dim1 img + 2 * nat p - krows K) div nat s + 1,
                     dim2 img) \<and>
       (\<not> s dvd int (dim0 img) + 2 * p - int (krows K) \<longrightarrow>
          (dim0 out - 1) * nat s + krows K < dim0 img + 2 * nat p) \<and>
       (\<not> s dvd int (dim1 img) + 2 * p - int (krows K) \<longrightarrow>
          (dim1 out - 1) * nat s + krows K < dim1 img + 2 * nat p)"
    by (rule stride_truncation_general)
next
  assume a: "wf3 img5 \<and> shape3 img5 = (5, 5, 1) \<and> wf2 K3 \<and> krows K3 = 3 \<and> kcols K3 = 3"
  then have "valid_call img5 K3 0 2"
    by (simp add: valid_call_def shape3_def)
  then show "\<exists>out. convolve2D img5 K3 0 2 = Inr out \<and> shape3 out = (2, 2, 1)"
    using a valid_call_returns [of img5 K3 0 2] by (simp add: shape3_def)
qed

theorem convolve2D_stride_truncation_witness:
  "(valid_call (image_of 6 5 1 (\<lambda>i j ch. 1 / 10)) (kernel_of 3 (\<lambda>a b. 1)) 0 2 \<and>
    \<not> (2::int) dvd int 6 + 2 * 0 - int 3 \<and>
    (\<exists>out. convolve2D (image_of 6 5 1 (\<lambda>i j ch. 1 / 10)) (kernel_of 3 (\<lambda>a b. 1)) 0 2 = Inr out \<and>
       shape3 out = (2, 2, 1) \<and> (dim0 out - 1) * 2 + 3 < (6::nat))) \<and>
   (wf3 (image_of 5 5 1 (\<lambda>i j ch. 1 / 10)) \<and>
    shape3 (image_of 5 5 1 (\<lambda>i j ch. 1 / 10)) = (5, 5, 1) \<and>
    wf2 (kernel_of 3 (\<lambda>a b. 1)) \<and>
    (\<exists>out. convolve2D (image_of 5 5 1 (\<lambda>i j ch. 1 / 10)) (kernel_of 3 (\<lambda>a b. 1)) 0 2 = Inr out \<and>
       shape3 out = (2, 2, 1)))"
proof -
  let ?I6 = "image_of 6 5 1 (\<lambda>i j ch. 1 / 10)" and ?I5 = "image_of 5 5 1 (\<lambda>i j ch. 1 / 10)"
  let ?K = "kernel_of 3 (\<lambda>a b. 1)"
  have v: "valid_call ?I6 ?K 0 2"
    by (simp add: valid_call_def wf3_image_of wf2_kernel_of image_of_dims kernel_of_dims)
  have d: "\<not> (2::int) dvd int 6 + 2 * 0 - int 3" by simp
  have w: "wf3 ?I5" "shape3 ?I5 = (5, 5, 1)" "wf2 ?K" "krows ?K = 3" "kcols ?K = 3"
    by (simp_all add: wf3_image_of wf2_kernel_of image_of_dims kernel_of_dims shape3_def)
  note t = convolve2D_stride_truncation [of ?I6 ?K 0 2 ?I5 ?K]
  have "\<not> 2 dvd int (dim0 ?I6) + 2 * 0 - int (krows ?K)"
    using d by (simp add: image_of_dims kernel_of_dims)
  with t v obtain out where out: "convolve2D ?I6 ?K 0 2 = Inr out"
    "shape3 out = ((dim0 ?I6 + 2 * nat 0 - krows ?K) div nat 2 + 1,
                   (dim1 ?I6 + 2 * nat 0 - krows ?K) div nat 2 + 1, dim2 ?I6)"
    "(dim0 out - 1) * nat 2 + krows ?K < dim0 ?I6 + 2 * nat 0"
    by blast
  have "shape3 out = (2, 2, 1)" "(dim0 out - 1) * 2 + 3 < (6::nat)"
    using out(2,3) by (simp_all add: image_of_dims kernel_of_dims)
  moreover from t w have "\<exists>out. convolve2D ?I5 ?K 0 2 = Inr out \<and> shape3 out = (2, 2, 1)"
    by blast
  ultimately show ?thesis
    using v d w out(1) by blast
qed

subsection \<open>The unit kernel\<close>

lemma window_sum_unit: "window_sum unit_kernel P r c ch = at3 P r c ch"
  by (simp add: window_sum_def unit_kernel_def at2_def)

lemma cells_by_index:
  assumes "wf3 A"
  shows "map (\<lambda>i. map (\<lambda>j. map (\<lambda>ch. f (at3 A i j ch)) [0..<dim2 A]) [0..<dim1 A]) [0..<dim0 A]
           = map (map (map f)) (cells A)"
proof (rule nth_equalityI)
  show "length (map (\<lambda>i. map (\<lambda>j. map (\<lambda>ch. f (at3 A i j ch)) [0..<dim2 A]) [0..<dim1 A])
          [0..<dim0 A]) = length (map (map (map f)) (cells A))"
    using wf3_rows [OF assms] by simp
next
  fix i
  assume "i < length (map (\<lambda>i. map (\<lambda>j. map (\<lambda>ch. f (at3 A i j ch)) [0..<dim2 A]) [0..<dim1 A])
          [0..<dim0 A])"
  then have i: "i < dim0 A" by simp
  have "map (\<lambda>j. map (\<lambda>ch. f (at3 A i j ch)) [0..<dim2 A]) [0..<dim1 A]
      = map (map f) (cells A ! i)"
  proof (rule nth_equalityI)
    show "length (map (\<lambda>j. map (\<lambda>ch. f (at3 A i j ch)) [0..<dim2 A]) [0..<dim1 A])
        = length (map (map f) (cells A ! i))"
      using wf3_row [OF assms i] by simp
  next
    fix j
    assume "j < length (map (\<lambda>j. map (\<lambda>ch. f (at3 A i j ch)) [0..<dim2 A]) [0..<dim1 A])"
    then have j: "j < dim1 A" by simp
    have "map (\<lambda>ch. f (at3 A i j ch)) [0..<dim2 A] = map f (cells A ! i ! j)"
      using wf3_px [OF assms i j] by (intro nth_equalityI) (simp_all add: at3_def)
    then show "map (\<lambda>j. map (\<lambda>ch. f (at3 A i j ch)) [0..<dim2 A]) [0..<dim1 A] ! j
        = map (map f) (cells A ! i) ! j"
      using j wf3_row [OF assms i] by simp
  qed
  then show "map (\<lambda>i. map (\<lambda>j. map (\<lambda>ch. f (at3 A i j ch)) [0..<dim2 A]) [0..<dim1 A])
          [0..<dim0 A] ! i = map (map (map f)) (cells A) ! i"
    using i wf3_rows [OF assms] by simp
qed

lemma unit_kernel_returns:
  assumes "wf3 img"
  shows "convolve2D img unit_kernel 0 1 = Inr (np_minimum (np_maximum img 0) 1)"
proof -
  have k: "krows unit_kernel = 1" "kcols unit_kernel = 1"
    by (simp_all add: unit_kernel_def)
  have "convolve2D img unit_kernel 0 (int 1)
      = Inr \<lparr>dim0 = nat ((int (dim0 img) + 0 * 2 - int (krows unit_kernel)) div int 1 + 1),
             dim1 = nat ((int (dim1 img) + 0 * 2 - int (krows unit_kernel)) div int 1 + 1),
             dim2 = dim2 img,
             cells = conv_cells unit_kernel (padded_or_self img 0) 1
               (nat ((int (dim0 img) + 0 * 2 - int (krows unit_kernel)) div int 1 + 1))
               (nat ((int (dim1 img) + 0 * 2 - int (krows unit_kernel)) div int 1 + 1))\<rparr>"
    using assms by (intro convolve2D_returns) (simp_all add: k)
  then have "convolve2D img unit_kernel 0 1
      = Inr \<lparr>dim0 = dim0 img, dim1 = dim1 img, dim2 = dim2 img,
             cells = conv_cells unit_kernel img 1 (dim0 img) (dim1 img)\<rparr>"
    by (simp add: k padded_or_self_def)
  moreover have "conv_cells unit_kernel img 1 (dim0 img) (dim1 img)
      = map (map (map clip01)) (cells img)"
    using cells_by_index [OF assms, of clip01] by (simp add: conv_cells_def window_sum_unit)
  ultimately show ?thesis
    by (simp add: np_minimum_def np_maximum_def clip01_def o_def)
qed

text \<open>
  C8. For every image, the convolution with the \<open>1 \<times> 1\<close> kernel of weight 1, padding 0
  and stride 1 returns an image of the same shape whose every element is the image's
  element clamped to \<open>[0, 1]\<close>; when every element of the image lies in \<open>[0, 1]\<close>, the
  output is the image.
\<close>

theorem convolve2D_unit_kernel:
  assumes "wf3 img"
  shows "\<exists>out. convolve2D img \<lparr>krows = 1, kcols = 1, weights = [[1]]\<rparr> 0 1 = Inr out \<and>
           shape3 out = shape3 img \<and>
           (\<forall>i<dim0 img. \<forall>j<dim1 img. \<forall>ch<dim2 img.
              at3 out i j ch = min (max (at3 img i j ch) 0) 1) \<and>
           ((\<forall>row\<in>set (cells img). \<forall>px\<in>set row. \<forall>x\<in>set px. 0 \<le> x \<and> x \<le> 1)
              \<longrightarrow> out = img)"
proof -
  let ?out = "np_minimum (np_maximum img 0) 1"
  have "convolve2D img \<lparr>krows = 1, kcols = 1, weights = [[1]]\<rparr> 0 1 = Inr ?out"
    using unit_kernel_returns [OF assms] by (simp add: unit_kernel_def)
  moreover have "shape3 ?out = shape3 img"
    by (simp add: shape3_def dims_clipped)
  moreover have "\<forall>i<dim0 img. \<forall>j<dim1 img. \<forall>ch<dim2 img.
      at3 ?out i j ch = min (max (at3 img i j ch) 0) 1"
    using assms by (simp add: at3_clipped clip01_def)
  moreover have "?out = img"
    if "\<forall>row\<in>set (cells img). \<forall>px\<in>set row. \<forall>x\<in>set px. 0 \<le> x \<and> x \<le> 1"
  proof -
    have "map (map (map clip01)) (cells img) = cells img"
      using that by (intro map_idI) (simp add: clip01_id)
    then have "cells ?out = cells img" by (simp add: clip_cells)
    then show ?thesis
      by (simp add: np_minimum_def np_maximum_def)
  qed
  ultimately show ?thesis by blast
qed

theorem convolve2D_unit_kernel_witness:
  "wf3 \<lparr>dim0 = 1, dim1 = 2, dim2 = 1, cells = [[[1 / 2], [1]]]\<rparr> \<and>
   convolve2D \<lparr>dim0 = 1, dim1 = 2, dim2 = 1, cells = [[[1 / 2], [1]]]\<rparr>
     \<lparr>krows = 1, kcols = 1, weights = [[1]]\<rparr> 0 1
     = Inr \<lparr>dim0 = 1, dim1 = 2, dim2 = 1, cells = [[[1 / 2], [1]]]\<rparr>"
proof -
  let ?I = "\<lparr>dim0 = 1, dim1 = 2, dim2 = 1, cells = [[[1 / 2], [1::real]]]\<rparr>"
  have wf: "wf3 ?I" by (simp add: wf3_def)
  have "\<forall>row\<in>set (cells ?I). \<forall>px\<in>set row. \<forall>x\<in>set px. 0 \<le> x \<and> x \<le> 1"
    by simp
  then show ?thesis
    using wf convolve2D_unit_kernel [OF wf] by auto
qed

subsection \<open>What a call leaves in the store\<close>

lemma extends_refl: "extends h h"
  by (simp add: extends_def)

lemma extends_trans: "extends h1 h2 \<Longrightarrow> extends h2 h3 \<Longrightarrow> extends h1 h3"
  by (auto simp add: extends_def)

lemma writes_only_refl: "writes_only t h h"
  by (simp add: writes_only_def)

lemma writes_only_trans: "writes_only t h1 h2 \<Longrightarrow> writes_only t h2 h3 \<Longrightarrow> writes_only t h1 h3"
  by (auto simp add: writes_only_def)

lemma extends_writes_only:
  "extends h h1 \<Longrightarrow> writes_only t h1 h2 \<Longrightarrow> next_ref h \<le> t \<Longrightarrow> extends h h2"
  by (auto simp add: extends_def writes_only_def)

lemma new_array_extends:
  "new_array A h = (r, h') \<Longrightarrow> extends h h' \<and> r = next_ref h \<and> next_ref h' = Suc r \<and> arrays h' r = A"
  by (auto simp add: new_array_def extends_def)

lemma st_zeros_extends:
  assumes "st_zeros a b c h = (res, h')"
  shows "extends h h'" and "res = Inr r \<Longrightarrow> r = next_ref h \<and> next_ref h' = Suc r"
  using assms
  by (auto simp add: st_zeros_def extends_refl split: sum.splits prod.splits
      dest: new_array_extends)

lemma st_setitem_slice3_writes:
  "st_setitem_slice3 target r0 r1 c0 c1 src h = (res, h') \<Longrightarrow> writes_only target h h'"
  by (auto simp add: st_setitem_slice3_def writes_only_def split: sum.splits)

lemma st_conv_pixel_writes:
  "st_conv_pixel kern padded_image stride ix_out iy_out output_image h = (res, h')
     \<Longrightarrow> writes_only output_image h h'"
  by (auto simp add: st_conv_pixel_def Let_def writes_only_def split: sum.splits)

lemma st_for_each_writes:
  assumes "\<And>x h res h'. body x h = (res, h') \<Longrightarrow> writes_only t h h'"
    and "st_for_each xs body h = (res, h')"
  shows "writes_only t h h'"
  using assms(2)
proof (induction xs arbitrary: h)
  case Nil
  then show ?case by (simp add: writes_only_refl)
next
  case (Cons x xs)
  obtain r1 h1 where b: "body x h = (r1, h1)" by (cases "body x h")
  then have w: "writes_only t h h1" by (rule assms(1))
  show ?case
  proof (cases r1)
    case (Inl e)
    then show ?thesis using Cons.prems b w by simp
  next
    case (Inr u)
    then have "st_for_each xs body h1 = (res, h')" using Cons.prems b by simp
    then have "writes_only t h1 h'" by (rule Cons.IH)
    with w show ?thesis by (rule writes_only_trans)
  qed
qed

lemma st_conv_loops_writes:
  assumes "st_conv_loops kern padded_image stride nx_out ny_out output_image h = (res, h')"
  shows "writes_only output_image h h'"
  using assms unfolding st_conv_loops_def
  by (rule st_for_each_writes [rotated]) (erule st_for_each_writes [rotated], erule st_conv_pixel_writes)

lemma st_pad_image_extends:
  assumes "st_pad_image input_image padding h = (res, h')"
  shows "extends h h'"
proof (cases "padding > 0")
  case False
  then show ?thesis using assms by (auto simp add: st_pad_image_def extends_refl)
next
  case True
  obtain r1 h1 where z: "st_zeros (int (dim0 (arrays h input_image)) + padding * 2)
      (int (dim1 (arrays h input_image)) + padding * 2) (int (dim2 (arrays h input_image))) h
      = (r1, h1)"
    by (cases "st_zeros (int (dim0 (arrays h input_image)) + padding * 2)
      (int (dim1 (arrays h input_image)) + padding * 2) (int (dim2 (arrays h input_image))) h")
  note e1 = st_zeros_extends [OF z]
  show ?thesis
  proof (cases r1)
    case (Inl e)
    then show ?thesis using assms True z e1(1) by (simp add: st_pad_image_def)
  next
    case (Inr padded_image)
    obtain r2 h2 where w: "st_setitem_slice3 padded_image padding (- padding) padding (- padding)
        input_image h1 = (r2, h2)"
      by (cases "st_setitem_slice3 padded_image padding (- padding) padding (- padding)
        input_image h1")
    have "extends h h2"
      using e1(1) st_setitem_slice3_writes [OF w] e1(2) [OF Inr]
      by (intro extends_writes_only [of h h1 padded_image h2]) simp_all
    moreover have "h' = h2"
      using assms True z Inr w by (cases r2) (simp_all add: st_pad_image_def)
    ultimately show ?thesis by simp
  qed
qed

lemma convolve2D_st_extends:
  assumes "convolve2D_st input_image kern padding stride h = (res, h')"
  shows "extends h h'" and "res = Inr out \<Longrightarrow> next_ref h \<le> out \<and> out < next_ref h'"
proof -
  let ?nx = "dim0 (arrays h input_image)" and ?ny = "dim1 (arrays h input_image)"
  let ?nc = "dim2 (arrays h input_image)"
  obtain r1 h1 where p: "st_pad_image input_image padding h = (r1, h1)"
    by (cases "st_pad_image input_image padding h")
  have e1: "extends h h1" using p by (rule st_pad_image_extends)
  have "extends h h' \<and> (res = Inr out \<longrightarrow> next_ref h \<le> out \<and> out < next_ref h')"
  proof (cases r1)
    case (Inl e)
    then have "res = Inl e" "h' = h1"
      using assms p by (simp_all add: convolve2D_st_def)
    then show ?thesis using e1 by simp
  next
    case padded: (Inr padded_image)
    let ?k = "int (krows (matrices h1 kern))"
    show ?thesis
    proof (cases "out_extent ?nx padding ?k stride")
      case (Inl e)
      then have "res = Inl e" "h' = h1"
        using assms p padded by (simp_all add: convolve2D_st_def)
      then show ?thesis using e1 by simp
    next
      case nx: (Inr nx_out)
      show ?thesis
      proof (cases "out_extent ?ny padding ?k stride")
        case (Inl e)
        then have "res = Inl e" "h' = h1"
          using assms p padded nx by (simp_all add: convolve2D_st_def)
        then show ?thesis using e1 by simp
      next
        case ny: (Inr ny_out)
        obtain r2 h2 where z: "st_zeros nx_out ny_out (int ?nc) h1 = (r2, h2)"
          by (cases "st_zeros nx_out ny_out (int ?nc) h1")
        note e2 = st_zeros_extends [OF z]
        have e12: "extends h h2" using e1 e2(1) by (rule extends_trans)
        show ?thesis
        proof (cases r2)
          case (Inl e)
          then have "res = Inl e" "h' = h2"
            using assms p padded nx ny z by (simp_all add: convolve2D_st_def)
          then show ?thesis using e12 by simp
        next
          case outp: (Inr output_image)
          obtain r3 h3 where l: "st_conv_loops kern padded_image stride nx_out ny_out
              output_image h2 = (r3, h3)"
            by (cases "st_conv_loops kern padded_image stride nx_out ny_out output_image h2")
          have "next_ref h \<le> output_image"
            using e2(2) [OF outp] e1 by (simp add: extends_def)
          then have e3: "extends h h3"
            by (rule extends_writes_only [OF e12 st_conv_loops_writes [OF l]])
          show ?thesis
          proof (cases r3)
            case (Inl e)
            then have "res = Inl e" "h' = h3"
              using assms p padded nx ny z outp l by (simp_all add: convolve2D_st_def)
            then show ?thesis using e3 by simp
          next
            case (Inr u)
            obtain om h4 where mx: "st_maximum output_image 0 h3 = (om, h4)"
              by (cases "st_maximum output_image 0 h3")
            obtain on h5 where mn: "st_minimum om 1 h4 = (on, h5)"
              by (cases "st_minimum om 1 h4")
            have a4: "extends h3 h4"
              using new_array_extends [OF mx [unfolded st_maximum_def]] by simp
            have a5: "extends h4 h5" "on = next_ref h4" "next_ref h5 = Suc on"
              using new_array_extends [OF mn [unfolded st_minimum_def]] by simp_all
            have e5: "extends h h5"
              using e3 a4 a5(1) by (blast intro: extends_trans)
            have "next_ref h \<le> on"
              using e3 a4 a5(2) by (simp add: extends_def)
            moreover have "res = Inr on" "h' = h5"
              using assms p padded nx ny z outp l Inr mx mn by (simp_all add: convolve2D_st_def)
            ultimately show ?thesis using e5 a5(3) by simp
          qed
        qed
      qed
    qed
  qed
  then show "extends h h'" and "res = Inr out \<Longrightarrow> next_ref h \<le> out \<and> out < next_ref h'"
    by simp_all
qed

text \<open>
  C9. After any call, failed or not, every array allocated before the call holds what it
  held, the input image among them, and the kernels are unchanged; a returned image is at
  a reference that was not allocated before the call, so it shares no storage with the
  input image.
\<close>

theorem convolve2D_inputs_unchanged:
  assumes "input_image < next_ref h"
  shows "case convolve2D_st input_image kern padding stride h of
           (res, h') \<Rightarrow>
             arrays h' input_image = arrays h input_image \<and>
             matrices h' kern = matrices h kern \<and>
             (\<forall>r<next_ref h. arrays h' r = arrays h r) \<and>
             matrices h' = matrices h \<and>
             (\<forall>out. res = Inr out \<longrightarrow>
                next_ref h \<le> out \<and> out < next_ref h' \<and> out \<noteq> input_image)"
proof -
  obtain res h' where c: "convolve2D_st input_image kern padding stride h = (res, h')"
    by (cases "convolve2D_st input_image kern padding stride h")
  have e: "extends h h'" using c by (rule convolve2D_st_extends)
  have "next_ref h \<le> out \<and> out < next_ref h' \<and> out \<noteq> input_image" if "res = Inr out" for out
    using convolve2D_st_extends(2) [OF c that] assms by simp
  then show ?thesis
    using e assms c by (simp add: extends_def)
qed

theorem convolve2D_inputs_unchanged_witness:
  "(0::nat) < 1 \<and>
   (case convolve2D_st 0 0 0 1
      \<lparr>arrays = (\<lambda>r. \<lparr>dim0 = 1, dim1 = 2, dim2 = 1, cells = [[[1 / 2], [3]]]\<rparr>),
       matrices = (\<lambda>r. \<lparr>krows = 1, kcols = 1, weights = [[1]]\<rparr>),
       next_ref = 1\<rparr> of
      (res, h') \<Rightarrow>
        res = Inr 3 \<and> next_ref h' = 4 \<and>
        arrays h' 0 = \<lparr>dim0 = 1, dim1 = 2, dim2 = 1, cells = [[[1 / 2], [3]]]\<rparr> \<and>
        arrays h' 3 = \<lparr>dim0 = 1, dim1 = 2, dim2 = 1, cells = [[[1 / 2], [1]]]\<rparr> \<and>
        matrices h' 0 = \<lparr>krows = 1, kcols = 1, weights = [[1]]\<rparr>)"
proof -
  let ?h = "\<lparr>arrays = (\<lambda>r. \<lparr>dim0 = 1, dim1 = 2, dim2 = 1, cells = [[[1 / 2], [3]]]\<rparr>),
       matrices = (\<lambda>r. \<lparr>krows = 1, kcols = 1, weights = [[1::real]]\<rparr>),
       next_ref = 1\<rparr>"
  have run: "fst (convolve2D_st 0 0 0 1 ?h) = Inr 3"
    "next_ref (snd (convolve2D_st 0 0 0 1 ?h)) = 4"
    "arrays (snd (convolve2D_st 0 0 0 1 ?h)) 3
       = \<lparr>dim0 = 1, dim1 = 2, dim2 = 1, cells = [[[1 / 2], [1]]]\<rparr>"
    by code_simp+
  have "(0::nat) < next_ref ?h" by simp
  from convolve2D_inputs_unchanged [OF this, of 0 0 1] run show ?thesis
    by (simp add: case_prod_beta)
qed

text \<open>
  The function on the store computes what the function on values computes: the same
  error, or a reference to the same image.
\<close>

lemma st_for_each_refines:
  assumes step: "\<And>x h res h'. I h \<Longrightarrow> body_st x h = (res, h') \<Longrightarrow>
                   I h' \<and> agrees (body x (arrays h out)) res (arrays h' out)"
    and "I h" and "st_for_each xs body_st h = (res, h')"
  shows "I h' \<and> agrees (for_each xs body (arrays h out)) res (arrays h' out)"
  using assms(2,3)
proof (induction xs arbitrary: h)
  case Nil
  then show ?case by (auto simp add: agrees_def)
next
  case (Cons x xs)
  obtain r1 h1 where b: "body_st x h = (r1, h1)" by (cases "body_st x h")
  note s = step [OF Cons.prems(1) b]
  show ?case
  proof (cases r1)
    case (Inl e)
    then have "res = Inl e" "h' = h1" using Cons.prems(2) b by simp_all
    then show ?thesis using s Inl by (auto simp add: agrees_def split: sum.splits)
  next
    case (Inr u)
    then obtain A where A: "body x (arrays h out) = Inr A" "arrays h1 out = A"
      using s by (auto simp add: agrees_def split: sum.splits)
    have "st_for_each xs body_st h1 = (res, h')" using Cons.prems(2) b Inr by simp
    then have "I h' \<and> agrees (for_each xs body (arrays h1 out)) res (arrays h' out)"
      using s by (intro Cons.IH) simp_all
    then show ?thesis using A by simp
  qed
qed

lemma st_conv_pixel_refines:
  assumes "padded_image \<noteq> output_image" "reads_ok kern K padded_image P h"
    and "st_conv_pixel kern padded_image stride ix_out iy_out output_image h = (res, h')"
  shows "reads_ok kern K padded_image P h' \<and>
         agrees (conv_pixel K P stride ix_out iy_out (arrays h output_image)) res
           (arrays h' output_image)"
  using assms
  by (auto simp add: st_conv_pixel_def conv_pixel_def Let_def reads_ok_def agrees_def
      split: sum.splits)

lemma st_conv_loops_refines:
  assumes "padded_image \<noteq> output_image" "reads_ok kern K padded_image P h"
    and "st_conv_loops kern padded_image stride nx_out ny_out output_image h = (res, h')"
  shows "agrees (conv_loops K P stride nx_out ny_out (arrays h output_image)) res
           (arrays h' output_image)"
proof -
  have inner: "reads_ok kern K padded_image P h2 \<and>
      agrees (for_each (np_arange ny_out) (\<lambda>iy_out. conv_pixel K P stride ix_out iy_out)
                (arrays h1 output_image)) r (arrays h2 output_image)"
    if "reads_ok kern K padded_image P h1"
      and "st_for_each (np_arange ny_out)
             (\<lambda>iy_out. st_conv_pixel kern padded_image stride ix_out iy_out output_image) h1
           = (r, h2)"
    for ix_out h1 r h2
    using that
    by (rule st_for_each_refines [where I = "reads_ok kern K padded_image P", rotated])
       (rule st_conv_pixel_refines [OF assms(1)])
  have "reads_ok kern K padded_image P h' \<and>
      agrees (for_each (np_arange nx_out)
                (\<lambda>ix_out. for_each (np_arange ny_out)
                   (\<lambda>iy_out. conv_pixel K P stride ix_out iy_out))
                (arrays h output_image)) res (arrays h' output_image)"
    using assms(2) assms(3) [unfolded st_conv_loops_def]
    by (rule st_for_each_refines [where I = "reads_ok kern K padded_image P", rotated])
       (rule inner)
  then show ?thesis by (simp add: conv_loops_def)
qed

lemma st_pad_image_refines:
  assumes "input_image < next_ref h" "st_pad_image input_image padding h = (res, h')"
  shows "case pad_image (arrays h input_image) padding of
           Inl e \<Rightarrow> res = Inl e
         | Inr P \<Rightarrow> \<exists>r. res = Inr r \<and> arrays h' r = P \<and> r < next_ref h'"
  using assms
  by (auto simp add: st_pad_image_def pad_image_def Let_def st_zeros_def new_array_def
      st_setitem_slice3_def split: sum.splits if_splits)

lemma st_zeros_refines:
  assumes "st_zeros a b c h = (res, h')"
  shows "case np_zeros a b c of
           Inl e \<Rightarrow> res = Inl e \<and> h' = h
         | Inr Z \<Rightarrow> res = Inr (next_ref h) \<and> arrays h' (next_ref h) = Z \<and>
                     (\<forall>r. r \<noteq> next_ref h \<longrightarrow> arrays h' r = arrays h r) \<and>
                     matrices h' = matrices h"
  using assms by (auto simp add: st_zeros_def new_array_def split: sum.splits)

lemma convolve2D_st_refines:
  assumes "input_image < next_ref h"
    and "convolve2D_st input_image kern padding stride h = (res, h')"
  shows "case convolve2D (arrays h input_image) (matrices h kern) padding stride of
           Inl e \<Rightarrow> res = Inl e
         | Inr B \<Rightarrow> \<exists>out. res = Inr out \<and> arrays h' out = B"
proof -
  let ?A = "arrays h input_image" and ?K = "matrices h kern"
  let ?k = "int (krows ?K)"
  obtain r1 h1 where p: "st_pad_image input_image padding h = (r1, h1)"
    by (cases "st_pad_image input_image padding h")
  note pr = st_pad_image_refines [OF assms(1) p]
  have m1: "matrices h1 = matrices h"
    using st_pad_image_extends [OF p] by (simp add: extends_def)
  show ?thesis
  proof (cases "pad_image ?A padding")
    case (Inl e)
    then have "r1 = Inl e" using pr by simp
    then have "res = Inl e" using assms(2) p by (simp add: convolve2D_st_def)
    then show ?thesis using Inl by (simp add: convolve2D_def)
  next
    case padP: (Inr P)
    then obtain padded_image where pi: "r1 = Inr padded_image" "arrays h1 padded_image = P"
      "padded_image < next_ref h1"
      using pr by auto
    show ?thesis
    proof (cases "out_extent (dim0 ?A) padding ?k stride")
      case (Inl e)
      then have "res = Inl e" using assms(2) p pi(1) m1 by (simp add: convolve2D_st_def)
      then show ?thesis using padP Inl by (simp add: convolve2D_def)
    next
      case nx: (Inr nx_out)
      show ?thesis
      proof (cases "out_extent (dim1 ?A) padding ?k stride")
        case (Inl e)
        then have "res = Inl e" using assms(2) p pi(1) m1 nx by (simp add: convolve2D_st_def)
        then show ?thesis using padP nx Inl by (simp add: convolve2D_def)
      next
        case ny: (Inr ny_out)
        obtain r2 h2 where z: "st_zeros nx_out ny_out (int (dim2 ?A)) h1 = (r2, h2)"
          by (cases "st_zeros nx_out ny_out (int (dim2 ?A)) h1")
        note zr = st_zeros_refines [OF z]
        show ?thesis
        proof (cases "np_zeros nx_out ny_out (int (dim2 ?A))")
          case (Inl e)
          then have "r2 = Inl e" using zr by simp
          then have "res = Inl e"
            using assms(2) p pi(1) m1 nx ny z by (simp add: convolve2D_st_def)
          then show ?thesis using padP nx ny Inl by (simp add: convolve2D_def)
        next
          case zZ: (Inr Z)
          let ?out = "next_ref h1"
          have o: "r2 = Inr ?out" "arrays h2 ?out = Z" "arrays h2 padded_image = P"
            "matrices h2 kern = ?K" "padded_image \<noteq> ?out"
            using zr zZ pi(2,3) m1 by auto
          obtain r3 h3 where l: "st_conv_loops kern padded_image stride nx_out ny_out ?out h2
              = (r3, h3)"
            by (cases "st_conv_loops kern padded_image stride nx_out ny_out ?out h2")
          have "reads_ok kern ?K padded_image P h2"
            using o(3,4) by (simp add: reads_ok_def)
          then have ag: "agrees (conv_loops ?K P stride nx_out ny_out Z) r3 (arrays h3 ?out)"
            using st_conv_loops_refines [OF o(5) _ l] o(2) by simp
          show ?thesis
          proof (cases "conv_loops ?K P stride nx_out ny_out Z")
            case (Inl e)
            then have "r3 = Inl e" using ag by (simp add: agrees_def)
            then have "res = Inl e"
              using assms(2) p pi(1) m1 nx ny z o(1) l by (simp add: convolve2D_st_def)
            then show ?thesis using padP nx ny zZ Inl by (simp add: convolve2D_def)
          next
            case raw: (Inr raw)
            then have r3: "r3 = Inr ()" "arrays h3 ?out = raw"
              using ag by (simp_all add: agrees_def)
            obtain om h4 where mx: "st_maximum ?out 0 h3 = (om, h4)"
              by (cases "st_maximum ?out 0 h3")
            obtain on h5 where mn: "st_minimum om 1 h4 = (on, h5)"
              by (cases "st_minimum om 1 h4")
            have "arrays h4 om = np_maximum raw 0"
              using new_array_extends [OF mx [unfolded st_maximum_def]] r3(2) by auto
            then have "arrays h5 on = np_minimum (np_maximum raw 0) 1"
              using new_array_extends [OF mn [unfolded st_minimum_def]] by auto
            moreover have "res = Inr on" "h' = h5"
              using assms(2) p pi(1) m1 nx ny z o(1) l r3(1) mx mn
              by (simp_all add: convolve2D_st_def)
            ultimately show ?thesis
              using padP nx ny zZ raw by (simp add: convolve2D_def)
          qed
        qed
      qed
    qed
  qed
qed

subsection \<open>Empty outputs\<close>

text \<open>
  C10, as the code has it. When \<open>-s \<le> R + 2p - k\<close> and \<open>-s \<le> C + 2p - k\<close> and at least
  one of the two is negative, the call raises no error and returns an image without
  elements: the extent of an axis whose difference is negative is 0, and the channel
  count is the image's.
\<close>

theorem convolve2D_empty_output:
  assumes "wf3 img" "kcols K = krows K" "1 \<le> s"
    and "- s \<le> int (dim0 img) + 2 * p - int (krows K)"
    and "- s \<le> int (dim1 img) + 2 * p - int (krows K)"
    and "int (dim0 img) + 2 * p - int (krows K) < 0 \<or>
         int (dim1 img) + 2 * p - int (krows K) < 0"
  shows "\<exists>out. convolve2D img K p s = Inr out \<and> wf3 out \<and>
           shape3 out = (nat ((int (dim0 img) + 2 * p - int (krows K)) div s + 1),
                         nat ((int (dim1 img) + 2 * p - int (krows K)) div s + 1),
                         dim2 img) \<and>
           (int (dim0 img) + 2 * p - int (krows K) < 0 \<longrightarrow> dim0 out = 0) \<and>
           (int (dim1 img) + 2 * p - int (krows K) < 0 \<longrightarrow> dim1 out = 0) \<and>
           concat (concat (cells out)) = []"
proof -
  let ?dx = "int (dim0 img) + 2 * p - int (krows K)"
  let ?dy = "int (dim1 img) + 2 * p - int (krows K)"
  let ?P = "padded_or_self img p"
  let ?out = "\<lparr>dim0 = nat (?dx div s + 1), dim1 = nat (?dy div s + 1), dim2 = dim2 ?P,
               cells = conv_cells K ?P (nat s) (nat (?dx div s + 1)) (nat (?dy div s + 1))\<rparr>"
  have d2: "dim2 ?P = dim2 img" using assms(1) by (rule padded_or_self_facts)
  have out: "convolve2D img K p s = Inr ?out"
    using convolve2D_returns_int [OF assms(1,2,3,4,5)] by (simp add: d2)
  have wf: "wf3 ?out" by (rule wf3_conv_cells)
  have x: "nat (?dx div s + 1) = 0" if "?dx < 0"
    using extent_zero [OF assms(3,4) that] by simp
  have y: "nat (?dy div s + 1) = 0" if "?dy < 0"
    using extent_zero [OF assms(3,5) that] by simp
  have "concat (concat (cells ?out)) = []"
    using assms(6) x y by (auto simp add: conv_cells_def)
  then show ?thesis
    using out wf x y d2 by (simp add: shape3_def)
qed

theorem convolve2D_empty_output_witness:
  "wf3 (image_of 4 4 3 (\<lambda>i j ch. 1)) \<and> (1::int) \<le> 1 \<and>
   - 1 \<le> int 4 + 2 * 0 - int 5 \<and> int 4 + 2 * 0 - int 5 < 0 \<and>
   (\<exists>out. convolve2D (image_of 4 4 3 (\<lambda>i j ch. 1)) (kernel_of 5 (\<lambda>a b. 1)) 0 1 = Inr out \<and>
      wf3 out \<and> shape3 out = (0, 0, 3) \<and> concat (concat (cells out)) = [])"
  using convolve2D_empty_output [of "image_of 4 4 3 (\<lambda>i j ch. 1)" "kernel_of 5 (\<lambda>a b. 1)" 1 0]
  by (simp add: wf3_image_of image_of_dims kernel_of_dims) blast

text \<open>
  The condition on one axis is not enough. The \<open>4 \<times> 2\<close> image with a kernel of side 5,
  padding 0 and stride 1: the row extent is \<open>(4 - 5) // 1 + 1 = 0\<close>, the column extent
  \<open>(2 - 5) // 1 + 1 = -2\<close>, and \<^verbatim>\<open>np.zeros((0, -2, 1))\<close> raises ValueError.
\<close>

theorem empty_output_counterexample:
  "(- 1 \<le> int 4 + 2 * 0 - int 5 \<and> int 4 + 2 * 0 - int 5 < 0) \<and>
   convolve2D
     \<lparr>dim0 = 4, dim1 = 2, dim2 = 1,
      cells = [[[1], [1]], [[1], [1]], [[1], [1]], [[1], [1]]]\<rparr>
     \<lparr>krows = 5, kcols = 5,
      weights = [[1, 1, 1, 1, 1], [1, 1, 1, 1, 1], [1, 1, 1, 1, 1],
                 [1, 1, 1, 1, 1], [1, 1, 1, 1, 1]]\<rparr> 0 1
     = Inl ValueError"
  by code_simp

end
